theory Spec2Isabelle
  imports Complex_Main "HOL-Library.AList" "HOL-Library.List_Lexorder" "HOL-Library.Char_ord"
begin

section \<open>The geocoding pipeline of LabLog.py\<close>

text \<open>
  The development embeds the asynchronous geocoding pipeline of \<^verbatim>\<open>LabLog.py\<close>:
  the geocache helpers \<^verbatim>\<open>get_cached_location_db\<close> and \<^verbatim>\<open>add_cached_location_db\<close>,
  the background worker \<^verbatim>\<open>_geocode_locations_in_thread\<close>, the coordinator
  \<^verbatim>\<open>load_map_markers\<close>, the queue drain \<^verbatim>\<open>_process_geocoding_results\<close> and
  \<^verbatim>\<open>_finalize_map_loading\<close>.

  Python strings are \<^typ>\<open>string\<close>, latitudes and longitudes (Python floats that the
  code only stores and passes on) are \<^typ>\<open>real\<close>, counters are \<^typ>\<open>nat\<close>.
\<close>

subsection \<open>The geocache table\<close>

type_synonym coords = "real \<times> real"

text \<open>
  Table \<^verbatim>\<open>geocache\<close> has \<^verbatim>\<open>location_key TEXT PRIMARY KEY\<close>: at most one row per
  key, so its contents are a map from keys to (latitude, longitude).
\<close>

type_synonym geocache = "string \<rightharpoonup> coords"

text \<open>
  \<^verbatim>\<open>get_cached_location_db(location_key)\<close>: the row's two columns, or \<^verbatim>\<open>None\<close> when there
  is no row. Any exception of the database layer is caught and logged, and the function
  returns \<^verbatim>\<open>None\<close>; the first argument says whether the database raises at this call.
\<close>

definition get_cached_location_db :: "bool \<Rightarrow> geocache \<Rightarrow> string \<Rightarrow> coords option" where
  "get_cached_location_db db_raises db location_key =
     (if db_raises then None
      else case db location_key of
             Some row \<Rightarrow> Some (fst row, snd row)
           | None \<Rightarrow> None)"

text \<open>
  \<^verbatim>\<open>add_cached_location_db(location_key, latitude, longitude)\<close>:
  \<^verbatim>\<open>INSERT OR REPLACE\<close>, returning \<^verbatim>\<open>True\<close>; on any exception the table is left as it
  was and the result is \<^verbatim>\<open>False\<close>.
\<close>

definition add_cached_location_db ::
  "bool \<Rightarrow> geocache \<Rightarrow> string \<Rightarrow> real \<Rightarrow> real \<Rightarrow> bool \<times> geocache" where
  "add_cached_location_db db_raises db location_key latitude longitude =
     (if db_raises then (False, db)
      else (True, db(location_key \<mapsto> (latitude, longitude))))"

subsection \<open>Queue items and the worker's environment\<close>

text \<open>
  The tuples put on \<^verbatim>\<open>result_queue\<close>, by their tag. \<^verbatim>\<open>'success'\<close> is never produced
  by the worker; the drain accepts it "for backward compatibility".
\<close>

datatype item =
    success_cached string string real real
  | success_geocoded string string real real
  | success string string real real
  | skipped string string string
  | finished

text \<open>
  What \<^verbatim>\<open>thread_geolocator.geocode(location_string, timeout=10)\<close> can raise: the two
  geopy exceptions the worker names, and any other \<^verbatim>\<open>Exception\<close> with its message
  \<^verbatim>\<open>str(e)\<close>.
\<close>

datatype py_exception = GeocoderTimedOut | GeocoderUnavailable | Exception string

text \<open>
  Everything outside the worker that it observes, indexed by the loop's
  \<^verbatim>\<open>index\<close> (from \<^verbatim>\<open>enumerate(locations)\<close>):
  the value of \<^verbatim>\<open>getattr(self.root, '_running', True)\<close> read in that iteration,
  the outcome of the Nominatim call (an exception, \<^verbatim>\<open>None\<close>, or a location with its
  latitude and longitude), and whether the database raises in the cache read or write.
\<close>

record worker_env =
  running :: "nat \<Rightarrow> bool"
  geocode :: "nat \<Rightarrow> string \<Rightarrow> py_exception + coords option"
  db_read_raises :: "nat \<Rightarrow> bool"
  db_write_raises :: "nat \<Rightarrow> bool"

text \<open>The externally visible actions of the worker, in the order it performs them.\<close>

datatype effect =
    CacheGet string
  | Geocode string
  | CachePut string real real
  | Put item
  | Sleep real

subsection \<open>The worker: \<^verbatim>\<open>_geocode_locations_in_thread\<close>\<close>

definition location_cache_key :: "string \<Rightarrow> string \<Rightarrow> string" where
  "location_cache_key city state = city @ ''|'' @ state"

definition location_string :: "string \<Rightarrow> string \<Rightarrow> string" where
  "location_string city state = city @ '', '' @ state @ '', USA''"

text \<open>
  The body of the \<^verbatim>\<open>try\<close> block: the geocoder call, then either the cache write and the
  \<^verbatim>\<open>success_geocoded\<close> item or the "could not geolocate" item. An exception of the call
  leaves the block at once (\<open>Inl\<close>), after the call itself has been made.
\<close>

definition try_geocode ::
  "worker_env \<Rightarrow> nat \<Rightarrow> string \<Rightarrow> string \<Rightarrow> geocache \<Rightarrow> py_exception + (effect list \<times> geocache)" where
  "try_geocode env index city state db =
     (case geocode env index (location_string city state) of
        Inl e \<Rightarrow> Inl e
      | Inr (Some (latitude, longitude)) \<Rightarrow>
          (let (ok, db') = add_cached_location_db (db_write_raises env index) db
                             (location_cache_key city state) latitude longitude
           in Inr ([CachePut (location_cache_key city state) latitude longitude,
                    Put (success_geocoded city state latitude longitude)], db'))
      | Inr None \<Rightarrow>
          Inr ([Put (skipped city state ''Could not geolocate via Nominatim'')], db))"

text \<open>The three \<^verbatim>\<open>except\<close> clauses, in the source's order.\<close>

fun except_geocode :: "string \<Rightarrow> string \<Rightarrow> py_exception \<Rightarrow> effect list" where
  "except_geocode city state GeocoderTimedOut =
     [Put (skipped city state ''Geocoding timed out'')]"
| "except_geocode city state GeocoderUnavailable =
     [Put (skipped city state ''Geocoding service unavailable'')]"
| "except_geocode city state (Exception e) =
     [Put (skipped city state (''Nominatim Error: '' @ e))]"

text \<open>
  One iteration of the loop after the stop check: the cache lookup, and on a miss the
  \<^verbatim>\<open>try\<close> statement followed by \<^verbatim>\<open>time.sleep(1.1)\<close>. A cache hit ends the iteration
  with \<^verbatim>\<open>continue\<close>. (\<^verbatim>\<open>if cached_coords:\<close> tests a pair, which is true whenever it is
  not \<^verbatim>\<open>None\<close>.)
\<close>

definition process_location ::
  "worker_env \<Rightarrow> nat \<Rightarrow> string \<times> string \<Rightarrow> geocache \<Rightarrow> effect list \<times> geocache" where
  "process_location env index location_tuple db =
     (let city = fst location_tuple; state = snd location_tuple;
          key = location_cache_key city state
      in case get_cached_location_db (db_read_raises env index) db key of
           Some (latitude, longitude) \<Rightarrow>
             ([CacheGet key, Put (success_cached city state latitude longitude)], db)
         | None \<Rightarrow>
             (case try_geocode env index city state db of
                Inr (effs, db') \<Rightarrow>
                  (CacheGet key # Geocode (location_string city state) # effs @ [Sleep (11 / 10)], db')
              | Inl e \<Rightarrow>
                  (CacheGet key # Geocode (location_string city state) # except_geocode city state e
                     @ [Sleep (11 / 10)], db)))"

text \<open>
  The \<^verbatim>\<open>for\<close> loop from position \<open>index\<close> on. When the stop flag is seen, \<^verbatim>\<open>break\<close>
  leaves the loop.
\<close>

fun geocode_loop ::
  "worker_env \<Rightarrow> nat \<Rightarrow> (string \<times> string) list \<Rightarrow> geocache \<Rightarrow> effect list \<times> geocache" where
  "geocode_loop env index [] db = ([], db)"
| "geocode_loop env index (location_tuple # rest) db =
     (if \<not> running env index then ([], db)
      else let (effs, db') = process_location env index location_tuple db;
               (effs', db'') = geocode_loop env (Suc index) rest db'
           in (effs @ effs', db''))"

text \<open>
  The whole worker: the loop, then \<^verbatim>\<open>result_queue.put(('finished',))\<close>, which follows the
  loop on every path out of it.
\<close>

definition geocode_locations_in_thread ::
  "worker_env \<Rightarrow> (string \<times> string) list \<Rightarrow> geocache \<Rightarrow> effect list \<times> geocache" where
  "geocode_locations_in_thread env locations db =
     (let (effs, db') = geocode_loop env 0 locations db
      in (effs @ [Put finished], db'))"

text \<open>The contents of \<^verbatim>\<open>result_queue\<close> after a run, when nothing has been taken from it.\<close>

fun puts :: "effect list \<Rightarrow> item list" where
  "puts [] = []"
| "puts (Put x # effs) = x # puts effs"
| "puts (_ # effs) = puts effs"

text \<open>An item that reports the outcome for the location \<open>(city, state)\<close>.\<close>

fun result_for :: "string \<times> string \<Rightarrow> item \<Rightarrow> bool" where
  "result_for (city, state) (success_cached c s _ _) = (c = city \<and> s = state)"
| "result_for (city, state) (success_geocoded c s _ _) = (c = city \<and> s = state)"
| "result_for (city, state) (skipped c s _) = (c = city \<and> s = state)"
| "result_for (city, state) (success _ _ _ _) = False"
| "result_for (city, state) finished = False"

text \<open>
  The contents of the geocache when the loop reaches position \<open>i\<close> of \<open>locations\<close>,
  having started from \<open>c\<close>: what the iterations before \<open>i\<close> leave behind.
\<close>

definition cache_before ::
  "worker_env \<Rightarrow> (string \<times> string) list \<Rightarrow> geocache \<Rightarrow> nat \<Rightarrow> geocache" where
  "cache_before env locations c i = snd (geocode_loop env 0 (take i locations) c)"

section \<open>The user-interface side\<close>

subsection \<open>Strings\<close>

text \<open>
  \<^verbatim>\<open>str.strip()\<close> removes leading and trailing whitespace. A \<^typ>\<open>char\<close> stands for a code
  point below 256; Python's whitespace among them is 9 to 13, 28 to 32, 133 and 160.
\<close>

definition is_space :: "char \<Rightarrow> bool" where
  "is_space c = ((of_char c :: nat) \<in> set [9, 10, 11, 12, 13, 28, 29, 30, 31, 32, 133, 160])"

definition strip :: "string \<Rightarrow> string" where
  "strip s = rev (dropWhile is_space (rev (dropWhile is_space s)))"

definition startswith :: "string \<Rightarrow> string \<Rightarrow> bool" where
  "startswith s p = (take (length p) s = p)"

text \<open>The decimal digits of a counter, as an f-string prints it.\<close>

fun str_nat :: "nat \<Rightarrow> string" where
  "str_nat n = (if n < 10 then [char_of (48 + n)]
                else str_nat (n div 10) @ [char_of (48 + n mod 10)])"

declare str_nat.simps [simp del]

definition newline :: string where
  "newline = [CHR 0x0A]"

subsection \<open>Case rows, grouping and popup text\<close>

text \<open>
  A row of \<^verbatim>\<open>case_log\<close> as \<^verbatim>\<open>get_all_cases_db\<close> returns it, with the three columns the
  map uses; \<open>None\<close> is SQL \<^verbatim>\<open>NULL\<close>.
\<close>

record case_row =
  city_of_offense :: "string option"
  state_of_offense :: "string option"
  offense_type :: "string option"

text \<open>\<^verbatim>\<open>(case.get(column) or "")\<close>\<close>

definition or_empty :: "string option \<Rightarrow> string" where
  "or_empty v = (case v of None \<Rightarrow> [] | Some x \<Rightarrow> x)"

type_synonym grouped_cases = "((string \<times> string) \<times> case_row list) list"

text \<open>
  The grouping loop of \<^verbatim>\<open>load_map_markers\<close>: the Python set \<^verbatim>\<open>unique_locations\<close> and
  the dict \<^verbatim>\<open>_grouped_cases_by_location\<close> (an association list in insertion order).
\<close>

fun group_cases ::
  "case_row list \<Rightarrow> (string \<times> string) set \<times> grouped_cases \<Rightarrow> (string \<times> string) set \<times> grouped_cases" where
  "group_cases [] acc = acc"
| "group_cases (c # cases) (unique_locations, grouped) =
     (let city = strip (or_empty (city_of_offense c));
          state = strip (or_empty (state_of_offense c))
      in if city \<noteq> [] \<and> state \<noteq> [] then
           (let location_key = (city, state);
                grouped1 = (if map_of grouped location_key = None
                            then AList.update location_key [] grouped else grouped)
            in group_cases cases
                 (insert location_key unique_locations,
                  AList.map_entry location_key (\<lambda>l. l @ [c]) grouped1))
         else group_cases cases (unique_locations, grouped))"

definition unique_offense_types :: "case_row list \<Rightarrow> string set" where
  "unique_offense_types cases_at_location =
     set (filter (\<lambda>t. t \<noteq> []) (map (\<lambda>c. strip (or_empty (offense_type c))) cases_at_location))"

text \<open>The popup text built in \<^verbatim>\<open>_process_geocoding_results\<close> for a success item.\<close>

definition info_text_for_popup :: "grouped_cases \<Rightarrow> string \<Rightarrow> string \<Rightarrow> string" where
  "info_text_for_popup grouped city state =
     (let info_text = ''City of Offense: '' @ city @ newline;
          cases_at_location = (case map_of grouped (city, state) of None \<Rightarrow> [] | Some cs \<Rightarrow> cs)
      in strip
           (if cases_at_location \<noteq> [] then
              (if unique_offense_types cases_at_location \<noteq> {} then
                 info_text @ newline @ ''Types of Offense:'' @ newline
                   @ concat (map (\<lambda>offense. ''- '' @ offense @ newline)
                       (sorted_list_of_set (unique_offense_types cases_at_location)))
               else info_text @ newline @ ''No specific offense types listed for this city.'')
            else info_text @ newline @ ''No case data found for this location.''))"

subsection \<open>Widgets, threads and the application state\<close>

record marker =
  position :: coords
  data :: string

datatype viewport = Centered real real nat | Fitted

text \<open>
  The map tab made by \<^verbatim>\<open>create_map_widgets\<close>: the tkintermapview widget with the markers
  drawn on it and its viewport, and the text of \<^verbatim>\<open>map_status_label\<close>, which is created
  and destroyed together with the widget.
\<close>

record map_view =
  winfo_exists :: bool
  canvas_markers :: "marker list"
  viewport :: viewport
  map_status_label :: string

record label =
  label_exists :: bool
  label_text :: string

text \<open>
  A worker thread: the queue object it was given, the locations its loop has still to
  visit with the index of the next one, and where it stands: in the loop, past
  \<^verbatim>\<open>result_queue.put(('finished',))\<close> with only the last log line to go, or returned
  (\<^verbatim>\<open>is_alive()\<close> is then false).
\<close>

datatype thread_phase = InLoop | AfterFinished | Exited

record worker_thread =
  thread_queue :: nat
  remaining :: "(string \<times> string) list"
  index :: nat
  phase :: thread_phase

text \<open>
  The attributes of \<^verbatim>\<open>CaseLogApp\<close> the pipeline uses, \<^verbatim>\<open>root._running\<close>, the geocache,
  and the stores of the \<^verbatim>\<open>queue.Queue\<close> and \<^verbatim>\<open>threading.Thread\<close> objects created
  so far, by address; \<^verbatim>\<open>geocoding_queue\<close> and \<^verbatim>\<open>geocoding_thread\<close> hold addresses.
\<close>

record state =
  root_running :: bool
  map_widget :: "map_view option"
  status_label :: "label option"
  status_text :: string
  status_animation_id :: "nat option"
  map_markers :: "((string \<times> string) \<times> marker) list"
  grouped_cases_by_location :: grouped_cases
  geocoding_queue :: nat
  geocoding_thread :: "nat option"
  processing_queue :: bool
  geolocated_count :: nat
  skipped_count :: nat
  geocoding_after_id :: "nat option"
  queues :: "nat \<Rightarrow> item list"
  queue_count :: nat
  threads :: "nat \<Rightarrow> worker_thread"
  thread_count :: nat
  geocache_table :: geocache

text \<open>
  What the user-interface code observes from outside: whether tkintermapview raises in
  \<^verbatim>\<open>set_marker\<close> (for the given latitude, longitude and popup text), in
  \<^verbatim>\<open>fit_markers\<close> and in \<^verbatim>\<open>set_position\<close>/\<^verbatim>\<open>set_zoom\<close>, and the identifier that
  \<^verbatim>\<open>root.after\<close> returns. These are the calls the source wraps in a \<^verbatim>\<open>try\<close> of their own.

  The \<^verbatim>\<open>try\<close> around \<^verbatim>\<open>set_marker\<close> also holds the calls that follow the placing of the
  marker: \<^verbatim>\<open>update_status\<close> with the running counts, and \<^verbatim>\<open>root.update_idletasks()\<close>.
  \<open>update_status_raises\<close> says whether Tk raises in the status bar's widget calls of that
  \<^verbatim>\<open>update_status\<close> call (for the given message), \<open>update_idletasks_raises\<close>
  whether \<^verbatim>\<open>update_idletasks\<close> raises there. In its other calls \<^verbatim>\<open>update_status\<close>, which
  guards each widget call with \<^verbatim>\<open>winfo_exists()\<close>, is taken not to raise.
\<close>

record ui_env =
  set_marker_raises :: "real \<Rightarrow> real \<Rightarrow> string \<Rightarrow> bool"
  update_status_raises :: "string \<Rightarrow> bool"
  update_idletasks_raises :: bool
  fit_markers_raises :: bool
  set_position_raises :: bool
  after_id :: nat

definition update_status :: "string \<Rightarrow> state \<Rightarrow> state" where
  "update_status message s =
     (let s1 = s\<lparr>status_text := message\<rparr>
      in case status_label s1 of
           None \<Rightarrow> s1
         | Some l \<Rightarrow>
             if label_exists l
             then s1\<lparr>status_label := Some (l\<lparr>label_text := message\<rparr>), status_animation_id := None\<rparr>
             else s1)"

text \<open>
  \<^verbatim>\<open>hasattr(self, 'map_widget') and self.map_widget and self.map_widget.winfo_exists()\<close>
\<close>

definition map_widget_alive :: "state \<Rightarrow> bool" where
  "map_widget_alive s = (case map_widget s of None \<Rightarrow> False | Some w \<Rightarrow> winfo_exists w)"

definition default_view :: viewport where
  "default_view = Centered (327 / 10) (- (895 / 10)) 7"

subsection \<open>\<^verbatim>\<open>_finalize_map_loading\<close>\<close>

definition skipped_suffix :: "nat \<Rightarrow> string" where
  "skipped_suffix n = '' ('' @ str_nat n @ '' skipped/errored)''"

text \<open>
  The text for \<^verbatim>\<open>map_status_label\<close> and the viewport change, computed in the branch where
  the map widget exists. An exception of \<^verbatim>\<open>fit_markers\<close>, or of \<^verbatim>\<open>set_position\<close> in the
  same \<^verbatim>\<open>try\<close>, gives the "Could not fit view" text; in the branch without located
  markers an exception of \<^verbatim>\<open>set_position\<close> is only logged.
\<close>

definition final_map_status :: "ui_env \<Rightarrow> state \<Rightarrow> map_view \<Rightarrow> map_view \<times> string" where
  "final_map_status uenv s w =
     (let (w1, final_map_status) =
        (if geolocated_count s > 0 then
           (if map_markers s \<noteq> [] then
              (if fit_markers_raises uenv
               then (w, ''Map status: Displaying '' @ str_nat (geolocated_count s)
                          @ '' locations. Could not fit view.'')
               else (w\<lparr>viewport := Fitted\<rparr>,
                     ''Map status: Displaying '' @ str_nat (geolocated_count s)
                       @ '' locations with markers.''))
            else
              (if set_position_raises uenv
               then (w, ''Map status: Displaying '' @ str_nat (geolocated_count s)
                          @ '' locations. Could not fit view.'')
               else (w\<lparr>viewport := default_view\<rparr>,
                     ''Map status: No geolocated markers to display.'')))
         else
           (if set_position_raises uenv then w else w\<lparr>viewport := default_view\<rparr>,
            ''Map status: No geolocatable cases.''))
      in (w1, if skipped_count s > 0
              then final_map_status @ skipped_suffix (skipped_count s)
              else final_map_status))"

text \<open>
  The last statement of \<^verbatim>\<open>_finalize_map_loading\<close>: the status bar goes back to "Ready"
  when it shows a map-loading message.
\<close>

definition reset_status_bar :: "state \<Rightarrow> state" where
  "reset_status_bar s =
     (case status_label s of
        None \<Rightarrow> s
      | Some l \<Rightarrow>
          if label_exists l
             \<and> (startswith (status_text s) ''Map markers loaded''
                \<or> startswith (status_text s) ''Loading map markers''
                \<or> status_text s = ''Initializing application...'')
          then update_status ''Ready'' s
          else s)"

definition finalize_map_loading :: "ui_env \<Rightarrow> state \<Rightarrow> state" where
  "finalize_map_loading uenv s =
     reset_status_bar
       (case map_widget s of
          None \<Rightarrow> update_status ''Map finalization skipped (widget destroyed).'' s
        | Some w \<Rightarrow>
            if winfo_exists w then
              (let (w1, final_map_status) = final_map_status uenv s w
               in update_status ''Map markers loaded.''
                    (s\<lparr>map_widget := Some (w1\<lparr>map_status_label := final_map_status\<rparr>)\<rparr>))
            else update_status ''Map finalization skipped (widget destroyed).'' s)"

subsection \<open>\<^verbatim>\<open>_process_geocoding_results\<close>\<close>

definition loading_status :: "state \<Rightarrow> string" where
  "loading_status s =
     ''Loading map markers... ('' @ str_nat (geolocated_count s) @ '' locations processed, ''
       @ str_nat (skipped_count s) @ '' skipped)''"

text \<open>
  The branch for \<^verbatim>\<open>success_cached\<close>, \<^verbatim>\<open>success_geocoded\<close> and \<^verbatim>\<open>success\<close>: build the
  popup text, then the \<^verbatim>\<open>try\<close> block. The branch runs only when the map widget exists.

  In the block, \<^verbatim>\<open>set_marker\<close> comes first; when it raises, nothing after it runs and the
  handler adds one to \<^verbatim>\<open>skipped_count\<close>. Otherwise the marker is stored, one is added to
  \<^verbatim>\<open>geolocated_count\<close>, and \<^verbatim>\<open>update_status\<close> and (when \<^verbatim>\<open>root._running\<close> is set)
  \<^verbatim>\<open>update_idletasks\<close> follow, still inside the block: when one of them raises, the same
  handler runs, so \<^verbatim>\<open>skipped_count\<close> grows as well, after \<^verbatim>\<open>geolocated_count\<close> has.
  \<^verbatim>\<open>update_status\<close> assigns \<^verbatim>\<open>self.status_text\<close> before it touches a widget, so the text
  is set when it raises.
\<close>

definition process_success :: "ui_env \<Rightarrow> string \<Rightarrow> string \<Rightarrow> real \<Rightarrow> real \<Rightarrow> state \<Rightarrow> state" where
  "process_success uenv city state latitude longitude s =
     (let popup = info_text_for_popup (grouped_cases_by_location s) city state
      in if set_marker_raises uenv latitude longitude popup
         then s\<lparr>skipped_count := skipped_count s + 1\<rparr>
         else
           (let m = \<lparr>position = (latitude, longitude), data = popup\<rparr>;
                s1 = s\<lparr>map_widget := map_option (\<lambda>w. w\<lparr>canvas_markers := canvas_markers w @ [m]\<rparr>)
                                        (map_widget s),
                       map_markers := AList.update (city, state) m (map_markers s),
                       geolocated_count := geolocated_count s + 1\<rparr>
            in if update_status_raises uenv (loading_status s1)
               then s1\<lparr>status_text := loading_status s1, skipped_count := skipped_count s1 + 1\<rparr>
               else
                 (let s2 = update_status (loading_status s1) s1
                  in if root_running s2 \<and> update_idletasks_raises uenv
                     then s2\<lparr>skipped_count := skipped_count s2 + 1\<rparr>
                     else s2)))"

definition process_skipped :: "state \<Rightarrow> state" where
  "process_skipped s =
     (let s1 = s\<lparr>skipped_count := skipped_count s + 1\<rparr>
      in update_status (loading_status s1) s1)"

text \<open>
  The \<^verbatim>\<open>while True\<close> loop over the items that \<^verbatim>\<open>get_nowait()\<close> finds; the result is what
  is left in the queue when the loop ends. On \<^verbatim>\<open>finished\<close> the flags are cleared and
  the finalize step runs; there is no \<^verbatim>\<open>break\<close> after it, so the widget check and the
  next \<^verbatim>\<open>get_nowait()\<close> follow. When the widget is gone the item just taken is dropped
  and the loop ends.
\<close>

fun drain_loop :: "ui_env \<Rightarrow> item list \<Rightarrow> state \<Rightarrow> item list \<times> state" where
  "drain_loop uenv [] s = ([], s)"
| "drain_loop uenv (x # q) s =
     (let s1 = (if x = finished
                then finalize_map_loading uenv (s\<lparr>processing_queue := False, geocoding_thread := None\<rparr>)
                else s)
      in if \<not> map_widget_alive s1 then (q, s1\<lparr>processing_queue := False\<rparr>)
         else case x of
                success_cached city state latitude longitude \<Rightarrow>
                  drain_loop uenv q (process_success uenv city state latitude longitude s1)
              | success_geocoded city state latitude longitude \<Rightarrow>
                  drain_loop uenv q (process_success uenv city state latitude longitude s1)
              | success city state latitude longitude \<Rightarrow>
                  drain_loop uenv q (process_success uenv city state latitude longitude s1)
              | skipped city state reason \<Rightarrow> drain_loop uenv q (process_skipped s1)
              | finished \<Rightarrow> drain_loop uenv q s1)"

definition process_geocoding_results :: "ui_env \<Rightarrow> state \<Rightarrow> state" where
  "process_geocoding_results uenv s =
     (let (q', s1) = drain_loop uenv (queues s (geocoding_queue s)) s;
          s2 = s1\<lparr>queues := (queues s1)(geocoding_queue s := q')\<rparr>
      in if processing_queue s2 \<and> root_running s2 then
           (if map_widget_alive s2 then s2\<lparr>geocoding_after_id := Some (after_id uenv)\<rparr>
            else s2\<lparr>processing_queue := False\<rparr>)
         else s2)"

subsection \<open>\<^verbatim>\<open>load_map_markers\<close>\<close>

text \<open>
  What a load observes from outside: the rows \<^verbatim>\<open>get_all_cases_db()\<close> returns, the order
  in which \<^verbatim>\<open>list(unique_locations)\<close> enumerates the set, and the environment of the
  call of \<^verbatim>\<open>_process_geocoding_results\<close> that ends the load.
\<close>

record load_env =
  all_cases :: "case_row list"
  listing :: "(string \<times> string) set \<Rightarrow> (string \<times> string) list"
  load_ui :: ui_env

text \<open>\<^verbatim>\<open>self.geocoding_thread and self.geocoding_thread.is_alive()\<close>\<close>

definition thread_is_alive :: "state \<Rightarrow> bool" where
  "thread_is_alive s =
     (case geocoding_thread s of None \<Rightarrow> False | Some t \<Rightarrow> phase (threads s t) \<noteq> Exited)"

definition load_map_markers :: "load_env \<Rightarrow> state \<Rightarrow> state" where
  "load_map_markers lenv s =
     (case map_widget s of
        None \<Rightarrow> update_status ''Map widget not available.'' s
      | Some w \<Rightarrow>
          if \<not> winfo_exists w then update_status ''Map widget not available.'' s
          else if thread_is_alive s then update_status ''Map loading already in progress.'' s
          else
            (let s1 = update_status ''Loading map markers (Geocoding in progress)...'' s;
                 s2 = s1\<lparr>map_widget := Some (w\<lparr>canvas_markers := []\<rparr>),
                        map_markers := [], geolocated_count := 0, skipped_count := 0,
                        grouped_cases_by_location := []\<rparr>
             in if all_cases lenv = [] then
                  (update_status ''Map status: No cases to geocode.'' s2)
                    \<lparr>map_widget := Some (w\<lparr>canvas_markers := [], viewport := default_view\<rparr>)\<rparr>
                else
                  (let (unique_locations, grouped) = group_cases (all_cases lenv) ({}, []);
                       s3 = s2\<lparr>grouped_cases_by_location := grouped\<rparr>;
                       list_of_unique_locations = listing lenv unique_locations
                   in if list_of_unique_locations = [] then
                        (update_status ''Map status: No geolocatable cases (missing city/state).'' s3)
                          \<lparr>map_widget := Some (w\<lparr>canvas_markers := [], viewport := default_view\<rparr>)\<rparr>
                      else
                        process_geocoding_results (load_ui lenv)
                          (s3\<lparr>queues := (queues s3)(queue_count s3 := []),
                              geocoding_queue := queue_count s3,
                              queue_count := Suc (queue_count s3),
                              processing_queue := True,
                              threads := (threads s3)(thread_count s3 :=
                                 \<lparr>thread_queue = queue_count s3,
                                  remaining = list_of_unique_locations,
                                  index = 0, phase = InLoop\<rparr>),
                              geocoding_thread := Some (thread_count s3),
                              thread_count := Suc (thread_count s3)\<rparr>))))"

subsection \<open>The system: the user-interface thread and the worker threads\<close>

text \<open>
  One step of worker thread \<open>t\<close>: an iteration of its loop (the stop check reads
  \<^verbatim>\<open>root._running\<close>), or leaving the loop and putting \<^verbatim>\<open>finished\<close>, or returning.
\<close>

definition thread_step :: "worker_env \<Rightarrow> nat \<Rightarrow> state \<Rightarrow> state" where
  "thread_step env t s =
     (let th = threads s t;
          put_finished = s\<lparr>queues := (queues s)(thread_queue th := queues s (thread_queue th) @ [finished]),
                           threads := (threads s)(t := th\<lparr>phase := AfterFinished\<rparr>)\<rparr>
      in case phase th of
           Exited \<Rightarrow> s
         | AfterFinished \<Rightarrow> s\<lparr>threads := (threads s)(t := th\<lparr>phase := Exited\<rparr>)\<rparr>
         | InLoop \<Rightarrow>
             (case remaining th of
                [] \<Rightarrow> put_finished
              | location_tuple # rest \<Rightarrow>
                  if \<not> root_running s then put_finished
                  else
                    (let (effs, db') = process_location env (index th) location_tuple (geocache_table s)
                     in s\<lparr>geocache_table := db',
                          queues := (queues s)(thread_queue th := queues s (thread_queue th) @ puts effs),
                          threads := (threads s)(t := th\<lparr>remaining := rest, index := Suc (index th)\<rparr>)\<rparr>)))"

text \<open>\<open>n\<close> consecutive steps of worker thread \<open>t\<close>, with nothing else running in between.\<close>

fun thread_steps :: "worker_env \<Rightarrow> nat \<Rightarrow> nat \<Rightarrow> state \<Rightarrow> state" where
  "thread_steps env t 0 s = s"
| "thread_steps env t (Suc n) s = thread_steps env t n (thread_step env t s)"

text \<open>The attributes as \<^verbatim>\<open>__init__\<close> sets them, before any widget is made.\<close>

definition init_state :: state where
  "init_state =
     \<lparr>root_running = True, map_widget = None, status_label = None, status_text = [],
      status_animation_id = None, map_markers = [], grouped_cases_by_location = [],
      geocoding_queue = 0, geocoding_thread = None, processing_queue = False,
      geolocated_count = 0, skipped_count = 0, geocoding_after_id = None,
      queues = (\<lambda>_. []), queue_count = 1,
      threads = (\<lambda>_. \<lparr>thread_queue = 0, remaining = [], index = 0, phase = Exited\<rparr>),
      thread_count = 0, geocache_table = Map.empty\<rparr>"

definition create_map_widgets :: "state \<Rightarrow> state" where
  "create_map_widgets s =
     s\<lparr>map_widget := Some \<lparr>winfo_exists = True, canvas_markers = [], viewport = default_view,
                            map_status_label = ''Map status: Not Loaded''\<rparr>\<rparr>"

definition create_status_label :: "state \<Rightarrow> state" where
  "create_status_label s =
     update_status ''Initializing application...''
       (s\<lparr>status_label := Some \<lparr>label_exists = True, label_text = ''Initializing...''\<rparr>\<rparr>)"

text \<open>
  \<^verbatim>\<open>on_closing\<close>: clear \<^verbatim>\<open>root._running\<close>, cancel the scheduled drain, destroy the map
  widget.
\<close>

definition on_closing :: "state \<Rightarrow> state" where
  "on_closing s =
     (let s1 = s\<lparr>root_running := False, geocoding_after_id := None\<rparr>
      in if map_widget_alive s1
         then s1\<lparr>map_widget := map_option (\<lambda>w. w\<lparr>winfo_exists := False\<rparr>) (map_widget s1)\<rparr>
         else s1)"

text \<open>
  The states the program can be in. The user-interface thread runs a load, a drain or
  the shutdown; each worker thread created so far takes steps of its own in between,
  with any outcome of the geocoder and the database.
\<close>

inductive reachable :: "state \<Rightarrow> bool" where
  init: "reachable init_state"
| widgets: "reachable s \<Longrightarrow> reachable (create_map_widgets s)"
| status_bar: "reachable s \<Longrightarrow> reachable (create_status_label s)"
| load: "reachable s \<Longrightarrow> reachable (load_map_markers lenv s)"
| drain: "reachable s \<Longrightarrow> reachable (process_geocoding_results uenv s)"
| worker: "reachable s \<Longrightarrow> t < thread_count s \<Longrightarrow> reachable (thread_step env t s)"
| closing: "reachable s \<Longrightarrow> reachable (on_closing s)"

subsection \<open>Notions used to state the properties\<close>

text \<open>
  \<open>status_updates_ok\<close>: neither \<^verbatim>\<open>update_status\<close> nor \<^verbatim>\<open>update_idletasks\<close> raises after
  a marker has been placed.

  The items a drain handles to the end: every item in the queue when the map widget
  exists; none when it is gone, since the loop then drops the item it took and ends.
\<close>

definition status_updates_ok :: "ui_env \<Rightarrow> bool" where
  "status_updates_ok uenv = ((\<forall>m. \<not> update_status_raises uenv m) \<and> \<not> update_idletasks_raises uenv)"




text \<open>A worker thread whose batch is in progress: it has not yet put \<^verbatim>\<open>finished\<close>.\<close>

definition batch_active :: "state \<Rightarrow> nat \<Rightarrow> bool" where
  "batch_active s t = (phase (threads s t) = InLoop)"

text \<open>
  The invariant behind "one batch at a time": a thread whose batch is in progress is the
  one \<^verbatim>\<open>geocoding_thread\<close> refers to, it writes to the queue \<^verbatim>\<open>geocoding_queue\<close> refers
  to, and that queue holds no \<^verbatim>\<open>finished\<close> yet; and no queue ever holds more than one
  \<^verbatim>\<open>finished\<close>.
\<close>

definition one_batch_inv :: "state \<Rightarrow> bool" where
  "one_batch_inv s =
     ((\<forall>t. batch_active s t \<longrightarrow>
            geocoding_thread s = Some t
          \<and> thread_queue (threads s t) = geocoding_queue s
          \<and> finished \<notin> set (queues s (geocoding_queue s)))
      \<and> (\<forall>a. count_list (queues s a) finished \<le> 1))"

text \<open>The text shown in \<^verbatim>\<open>map_status_label\<close>, when the map tab exists.\<close>

definition map_status :: "state \<Rightarrow> string option" where
  "map_status s = map_option map_status_label (map_widget s)"

definition drawn_markers :: "state \<Rightarrow> marker list option" where
  "drawn_markers s = map_option canvas_markers (map_widget s)"

section \<open>Example inputs\<close>

text \<open>
  A geocoder that knows Jackson, times out on Slowtown and finds nothing else; the stop
  flag is never set and the database works.
\<close>

definition example_env :: worker_env where
  "example_env =
     \<lparr>running = (\<lambda>_. True),
      geocode = (\<lambda>_ q. if q = ''Jackson, MS, USA'' then Inr (Some (323 / 10, - (902 / 10)))
                         else if q = ''Slowtown, MS, USA'' then Inl GeocoderTimedOut
                         else Inr None),
      db_read_raises = (\<lambda>_. False),
      db_write_raises = (\<lambda>_. False)\<rparr>"

definition example_locations :: "(string \<times> string) list" where
  "example_locations = [(''Jackson'', ''MS''), (''Nowhereville'', ''ZZ'')]"

text \<open>The same geocoder, with the stop flag set from the third iteration on.\<close>

definition stop_env :: worker_env where
  "stop_env = example_env\<lparr>running := (\<lambda>i. i < 2)\<rparr>"

definition five_locations :: "(string \<times> string) list" where
  "five_locations =
     [(''Jackson'', ''MS''), (''Nowhereville'', ''ZZ''), (''Slowtown'', ''MS''),
      (''Biloxi'', ''MS''), (''Tupelo'', ''MS'')]"

text \<open>A cache that already holds Jackson.\<close>

definition jackson_cache :: geocache where
  "jackson_cache = [''Jackson|MS'' \<mapsto> (323 / 10, - (902 / 10))]"

definition slow_locations :: "(string \<times> string) list" where
  "slow_locations = [(''Slowtown'', ''MS''), (''Jackson'', ''MS'')]"


text \<open>A geocoder that finds every place at the same coordinates.\<close>

definition anywhere_env :: worker_env where
  "anywhere_env = example_env\<lparr>geocode := (\<lambda>_ _. Inr (Some (30, - 90)))\<rparr>"

text \<open>The three case rows of the Jackson scenario.\<close>

definition example_cases :: "case_row list" where
  "example_cases =
     [\<lparr>city_of_offense = Some ''Jackson'', state_of_offense = Some ''MS'',
       offense_type = Some ''Fraud''\<rparr>,
      \<lparr>city_of_offense = Some ''Jackson'', state_of_offense = Some ''MS'',
       offense_type = Some ''Theft''\<rparr>,
      \<lparr>city_of_offense = Some '''', state_of_offense = Some ''MS'',
       offense_type = Some ''Fraud''\<rparr>]"

text \<open>A user interface in which no widget call raises.\<close>

definition quiet_ui :: ui_env where
  "quiet_ui = \<lparr>set_marker_raises = (\<lambda>_ _ _. False), update_status_raises = (\<lambda>_. False),
               update_idletasks_raises = False, fit_markers_raises = False,
               set_position_raises = False, after_id = 1\<rparr>"


text \<open>The application after \<^verbatim>\<open>__init__\<close> has made the map tab and the status bar.\<close>

definition ui_ready :: state where
  "ui_ready = create_status_label (create_map_widgets init_state)"

definition example_load :: load_env where
  "example_load =
     \<lparr>all_cases = example_cases,
      listing = (\<lambda>S. if (''Jackson'', ''MS'') \<in> S then [(''Jackson'', ''MS'')] else []),
      load_ui = quiet_ui\<rparr>"

section \<open>Properties of the worker\<close>

lemma puts_append: "puts (xs @ ys) = puts xs @ puts ys"
  by (induction xs rule: puts.induct) simp_all

lemma puts_except_geocode:
  "\<exists>reason. puts (except_geocode city state e) = [skipped city state reason]"
  by (cases e) simp_all

lemma puts_try_geocode:
  "try_geocode env i city state db = Inr (effs, db') \<Longrightarrow>
   \<exists>x. puts effs = [x] \<and> result_for (city, state) x"
  by (auto simp: try_geocode_def add_cached_location_db_def
           split: sum.splits option.splits if_splits prod.splits)

lemma puts_process_location:
  "\<exists>x. puts (fst (process_location env i (city, state) db)) = [x] \<and> result_for (city, state) x"
proof (cases "get_cached_location_db (db_read_raises env i) db (location_cache_key city state)")
  case (Some row)
  then show ?thesis
    by (cases row) (simp add: process_location_def)
next
  case None
  show ?thesis
  proof (cases "try_geocode env i city state db")
    case (Inl e)
    obtain reason where "puts (except_geocode city state e) = [skipped city state reason]"
      using puts_except_geocode by blast
    with None Inl show ?thesis
      by (simp add: process_location_def puts_append)
  next
    case (Inr r)
    obtain effs db' where r: "r = (effs, db')" by (cases r)
    from Inr r obtain x where "puts effs = [x]" "result_for (city, state) x"
      using puts_try_geocode by blast
    with None Inr r show ?thesis
      by (simp add: process_location_def puts_append)
  qed
qed

lemma geocode_loop_all_running:
  "\<forall>j < length locations. running env (i + j) \<Longrightarrow>
   list_all2 result_for locations (puts (fst (geocode_loop env i locations db)))"
proof (induction locations arbitrary: i db)
  case Nil
  then show ?case by simp
next
  case (Cons loc rest)
  obtain city state where loc: "loc = (city, state)" by (cases loc)
  from Cons.prems have r0: "running env i" by force
  from Cons.prems have "\<forall>j < length rest. running env (Suc i + j)" by force
  then have IH: "list_all2 result_for rest (puts (fst (geocode_loop env (Suc i) rest db')))" for db'
    using Cons.IH by blast
  obtain x where x: "puts (fst (process_location env i (city, state) db)) = [x]"
      "result_for (city, state) x"
    using puts_process_location by blast
  show ?case
    using r0 x IH [of "snd (process_location env i (city, state) db)"]
    by (simp add: loc split_beta puts_append)
qed

text \<open>
  C1. When the stop flag is never seen set, the queue holds, in the order of the input
  list, exactly one item per location, each a \<^verbatim>\<open>success_cached\<close>, \<^verbatim>\<open>success_geocoded\<close>
  or \<^verbatim>\<open>skipped\<close> item for that location, followed by \<^verbatim>\<open>finished\<close>, which occurs once
  and is the last item. This holds for every input list, in particular for the non-empty
  lists of unique locations that \<^verbatim>\<open>load_map_markers\<close> passes.
\<close>

theorem worker_one_item_per_location_then_finished:
  assumes "\<forall>i < length locations. running env i"
  shows "\<exists>evs. puts (fst (geocode_locations_in_thread env locations db)) = evs @ [finished]
           \<and> length evs = length locations
           \<and> list_all2 result_for locations evs
           \<and> finished \<notin> set evs
           \<and> count_list (puts (fst (geocode_locations_in_thread env locations db))) finished = 1
           \<and> last (puts (fst (geocode_locations_in_thread env locations db))) = finished"
proof -
  let ?evs = "puts (fst (geocode_loop env 0 locations db))"
  have all: "list_all2 result_for locations ?evs"
    using assms geocode_loop_all_running [of locations env 0 db] by simp
  have nf: "finished \<notin> set ?evs"
  proof
    assume "finished \<in> set ?evs"
    then obtain n where "n < length ?evs" "?evs ! n = finished"
      by (auto simp: in_set_conv_nth)
    with all have "result_for (locations ! n) finished"
      by (metis list_all2_nthD2)
    then show False by (cases "locations ! n") simp
  qed
  have eq: "puts (fst (geocode_locations_in_thread env locations db)) = ?evs @ [finished]"
    by (simp add: geocode_locations_in_thread_def split_beta puts_append)
  have "count_list (?evs @ [finished]) finished = 1"
    using nf by (simp add: count_list_0_iff)
  with eq all nf show ?thesis
    by (auto dest: list_all2_lengthD)
qed

theorem worker_one_item_per_location_then_finished_witness:
  "\<exists>evs. puts (fst (geocode_locations_in_thread example_env example_locations Map.empty))
            = evs @ [finished]
         \<and> length evs = length example_locations
         \<and> list_all2 result_for example_locations evs
         \<and> finished \<notin> set evs
         \<and> count_list (puts (fst (geocode_locations_in_thread example_env example_locations
                                     Map.empty))) finished = 1
         \<and> last (puts (fst (geocode_locations_in_thread example_env example_locations
                               Map.empty))) = finished"
  using worker_one_item_per_location_then_finished [of example_locations example_env Map.empty]
  by (simp add: example_env_def)

lemma geocode_loop_stop:
  "k < length locations \<Longrightarrow> \<not> running env (i + k) \<Longrightarrow>
   geocode_loop env i locations c = geocode_loop env i (take k locations) c"
proof (induction locations arbitrary: i k c)
  case Nil
  then show ?case by simp
next
  case (Cons loc rest)
  show ?case
  proof (cases k)
    case 0
    with Cons.prems show ?thesis by simp
  next
    case (Suc k')
    with Cons.prems have "k' < length rest" "\<not> running env (Suc i + k')" by simp_all
    then have "geocode_loop env (Suc i) rest c' = geocode_loop env (Suc i) (take k' rest) c'" for c'
      using Cons.IH by blast
    with Suc show ?thesis by (simp add: split_beta)
  qed
qed

lemmas worker_eval =
  geocode_locations_in_thread_def process_location_def try_geocode_def
  get_cached_location_db_def add_cached_location_db_def location_cache_key_def
  location_string_def Let_def

text \<open>
  C2, as stated, fails: with five locations and the stop flag seen in the third
  iteration, the queue ends with \<^verbatim>\<open>finished\<close>, because \<^verbatim>\<open>break\<close> leads to the
  \<^verbatim>\<open>put\<close> after the loop.
\<close>

theorem worker_stop_counterexample:
  "running stop_env 0 \<and> running stop_env 1 \<and> \<not> running stop_env 2
   \<and> puts (fst (geocode_locations_in_thread stop_env five_locations Map.empty))
       = [success_geocoded ''Jackson'' ''MS'' (323 / 10) (- (902 / 10)),
          skipped ''Nowhereville'' ''ZZ'' ''Could not geolocate via Nominatim'',
          finished]"
  by (simp add: stop_env_def example_env_def five_locations_def worker_eval)

text \<open>
  C2, amended. When the stop flag is first seen set in iteration \<open>k\<close>, the worker does
  exactly what a complete run over the first \<open>k\<close> locations does: it puts one item for
  each of them, in order, and then \<^verbatim>\<open>finished\<close>; nothing is done for the locations from
  \<open>k\<close> on.
\<close>

theorem worker_stop_still_puts_finished:
  assumes "k < length locations" and "\<forall>i < k. running env i" and "\<not> running env k"
  shows "geocode_locations_in_thread env locations c
           = geocode_locations_in_thread env (take k locations) c
         \<and> (\<exists>evs. puts (fst (geocode_locations_in_thread env locations c)) = evs @ [finished]
                \<and> list_all2 result_for (take k locations) evs)"
proof -
  have eq: "geocode_loop env 0 locations c = geocode_loop env 0 (take k locations) c"
    using assms(1,3) geocode_loop_stop [of k locations env 0 c] by simp
  have "list_all2 result_for (take k locations) (puts (fst (geocode_loop env 0 (take k locations) c)))"
    using assms(1,2) geocode_loop_all_running [of "take k locations" env 0 c] by simp
  with eq show ?thesis
    by (simp add: geocode_locations_in_thread_def split_beta puts_append)
qed

theorem worker_stop_still_puts_finished_witness:
  "geocode_locations_in_thread stop_env five_locations Map.empty
     = geocode_locations_in_thread stop_env (take 2 five_locations) Map.empty
   \<and> (\<exists>evs. puts (fst (geocode_locations_in_thread stop_env five_locations Map.empty))
               = evs @ [finished]
          \<and> list_all2 result_for (take 2 five_locations) evs)"
  by (rule worker_stop_still_puts_finished)
     (simp_all add: stop_env_def example_env_def five_locations_def)

lemma geocode_loop_append:
  "\<forall>j < length xs. running env (i + j) \<Longrightarrow>
   geocode_loop env i (xs @ ys) c =
     (fst (geocode_loop env i xs c) @ fst (geocode_loop env (i + length xs) ys (snd (geocode_loop env i xs c))),
      snd (geocode_loop env (i + length xs) ys (snd (geocode_loop env i xs c))))"
proof (induction xs arbitrary: i c)
  case Nil
  then show ?case by simp
next
  case (Cons x xs)
  from Cons.prems have r0: "running env i" by force
  from Cons.prems have "\<forall>j < length xs. running env (Suc i + j)" by force
  then have IH: "geocode_loop env (Suc i) (xs @ ys) c' =
     (fst (geocode_loop env (Suc i) xs c') @ fst (geocode_loop env (Suc i + length xs) ys (snd (geocode_loop env (Suc i) xs c'))),
      snd (geocode_loop env (Suc i + length xs) ys (snd (geocode_loop env (Suc i) xs c'))))" for c'
    using Cons.IH by blast
  show ?case
    using r0 by (simp add: split_beta IH)
qed

lemma worker_split:
  assumes "i < length locations" and "\<forall>j \<le> i. running env j"
  shows "fst (geocode_locations_in_thread env locations c) =
           fst (geocode_loop env 0 (take i locations) c)
           @ fst (process_location env i (locations ! i) (cache_before env locations c i))
           @ fst (geocode_loop env (Suc i) (drop (Suc i) locations)
                    (snd (process_location env i (locations ! i) (cache_before env locations c i))))
           @ [Put finished]"
proof -
  define xs where "xs = take i locations"
  define ys where "ys = drop (Suc i) locations"
  have split: "locations = xs @ (locations ! i # ys)"
    using assms(1) by (simp add: xs_def ys_def id_take_nth_drop [symmetric])
  have len: "length xs = i" using assms(1) by (simp add: xs_def)
  have run: "\<forall>j < length xs. running env (0 + j)"
    using assms(2) len by simp
  have ri: "running env i" using assms(2) by simp
  have cb: "cache_before env locations c i = snd (geocode_loop env 0 xs c)"
    by (simp add: cache_before_def xs_def)
  have "geocode_loop env 0 locations c = geocode_loop env 0 (xs @ (locations ! i # ys)) c"
    using split by simp
  also have "\<dots> = (fst (geocode_loop env 0 xs c)
        @ fst (geocode_loop env i (locations ! i # ys) (snd (geocode_loop env 0 xs c))),
       snd (geocode_loop env i (locations ! i # ys) (snd (geocode_loop env 0 xs c))))"
    using geocode_loop_append [OF run, of "locations ! i # ys" c] len by simp
  finally have "fst (geocode_loop env 0 locations c) =
      fst (geocode_loop env 0 xs c)
        @ fst (geocode_loop env i (locations ! i # ys) (snd (geocode_loop env 0 xs c)))"
    by simp
  then show ?thesis
    using ri by (simp add: geocode_locations_in_thread_def split_beta cb xs_def [symmetric] ys_def [symmetric])
qed

lemma process_location_hit:
  "get_cached_location_db (db_read_raises env i) c (location_cache_key city state) = Some (la, lo) \<Longrightarrow>
   process_location env i (city, state) c =
     ([CacheGet (location_cache_key city state), Put (success_cached city state la lo)], c)"
  by (simp add: process_location_def)

lemma process_location_found:
  "get_cached_location_db (db_read_raises env i) c (location_cache_key city state) = None \<Longrightarrow>
   geocode env i (location_string city state) = Inr (Some (la, lo)) \<Longrightarrow>
   process_location env i (city, state) c =
     ([CacheGet (location_cache_key city state), Geocode (location_string city state),
       CachePut (location_cache_key city state) la lo, Put (success_geocoded city state la lo),
       Sleep (11 / 10)],
      snd (add_cached_location_db (db_write_raises env i) c (location_cache_key city state) la lo))"
  by (simp add: process_location_def try_geocode_def split_beta Let_def)

lemma process_location_none:
  "get_cached_location_db (db_read_raises env i) c (location_cache_key city state) = None \<Longrightarrow>
   geocode env i (location_string city state) = Inr None \<Longrightarrow>
   process_location env i (city, state) c =
     ([CacheGet (location_cache_key city state), Geocode (location_string city state),
       Put (skipped city state ''Could not geolocate via Nominatim''), Sleep (11 / 10)], c)"
  by (simp add: process_location_def try_geocode_def)

lemma process_location_raise:
  "get_cached_location_db (db_read_raises env i) c (location_cache_key city state) = None \<Longrightarrow>
   geocode env i (location_string city state) = Inl e \<Longrightarrow>
   process_location env i (city, state) c =
     (CacheGet (location_cache_key city state) # Geocode (location_string city state)
        # except_geocode city state e @ [Sleep (11 / 10)], c)"
  by (simp add: process_location_def try_geocode_def)

lemma process_location_miss:
  assumes "get_cached_location_db (db_read_raises env i) c (location_cache_key city state) = None"
  shows "\<exists>mid. fst (process_location env i (city, state) c) =
           CacheGet (location_cache_key city state) # Geocode (location_string city state)
             # mid @ [Sleep (11 / 10)]"
proof (cases "geocode env i (location_string city state)")
  case (Inl e)
  then show ?thesis using assms by (simp add: process_location_raise)
next
  case (Inr r)
  show ?thesis
  proof (cases r)
    case None
    with Inr assms show ?thesis by (simp add: process_location_none)
  next
    case (Some p)
    obtain la lo where "p = (la, lo)" by (cases p)
    with Some Inr assms show ?thesis by (simp add: process_location_found)
  qed
qed


text \<open>
  C3. Take a location \<open>(city, state)\<close> at position \<open>i\<close> that the loop reaches (the stop
  flag was not seen set up to \<open>i\<close>). The worker's actions are those for the locations
  before \<open>i\<close>, then those for \<open>i\<close>, then those for the locations after \<open>i\<close> and the final
  \<^verbatim>\<open>put\<close>. When \<^verbatim>\<open>get_cached_location_db\<close> finds the key, the actions for \<open>i\<close> are the
  lookup and the \<^verbatim>\<open>success_cached\<close> item and nothing else: no geocoder call and no
  sleep, and the cache is unchanged. When it finds nothing, the actions for \<open>i\<close> start
  with the lookup and the geocoder call and end with a sleep of at least 1.1, which so
  precedes everything done for the next location.
\<close>

theorem cache_hit_skips_geocoder_and_throttle:
  assumes "i < length locations" and "\<forall>j \<le> i. running env j" and "locations ! i = (city, state)"
  shows "fst (geocode_locations_in_thread env locations c) =
           fst (geocode_loop env 0 (take i locations) c)
           @ fst (process_location env i (city, state) (cache_before env locations c i))
           @ fst (geocode_loop env (Suc i) (drop (Suc i) locations)
                    (snd (process_location env i (city, state) (cache_before env locations c i))))
           @ [Put finished]
         \<and> (\<forall>la lo. get_cached_location_db (db_read_raises env i) (cache_before env locations c i)
                        (location_cache_key city state) = Some (la, lo) \<longrightarrow>
                process_location env i (city, state) (cache_before env locations c i) =
                  ([CacheGet (location_cache_key city state), Put (success_cached city state la lo)],
                   cache_before env locations c i))
         \<and> (get_cached_location_db (db_read_raises env i) (cache_before env locations c i)
               (location_cache_key city state) = None \<longrightarrow>
              (\<exists>mid d. fst (process_location env i (city, state) (cache_before env locations c i)) =
                   CacheGet (location_cache_key city state) # Geocode (location_string city state)
                     # mid @ [Sleep d] \<and> d \<ge> 11 / 10))"
proof (intro conjI allI impI)
  show "fst (geocode_locations_in_thread env locations c) =
           fst (geocode_loop env 0 (take i locations) c)
           @ fst (process_location env i (city, state) (cache_before env locations c i))
           @ fst (geocode_loop env (Suc i) (drop (Suc i) locations)
                    (snd (process_location env i (city, state) (cache_before env locations c i))))
           @ [Put finished]"
    using worker_split [OF assms(1,2), of c] assms(3) by simp
next
  fix la lo
  assume "get_cached_location_db (db_read_raises env i) (cache_before env locations c i)
            (location_cache_key city state) = Some (la, lo)"
  then show "process_location env i (city, state) (cache_before env locations c i) =
                  ([CacheGet (location_cache_key city state), Put (success_cached city state la lo)],
                   cache_before env locations c i)"
    by (rule process_location_hit)
next
  assume "get_cached_location_db (db_read_raises env i) (cache_before env locations c i)
            (location_cache_key city state) = None"
  then obtain mid where "fst (process_location env i (city, state) (cache_before env locations c i)) =
           CacheGet (location_cache_key city state) # Geocode (location_string city state)
             # mid @ [Sleep (11 / 10)]"
    using process_location_miss by blast
  then show "\<exists>mid d. fst (process_location env i (city, state) (cache_before env locations c i)) =
                   CacheGet (location_cache_key city state) # Geocode (location_string city state)
                     # mid @ [Sleep d] \<and> d \<ge> 11 / 10"
    by (intro exI [of _ mid] exI [of _ "11 / 10"]) simp
qed

text \<open>
  C4. When the geocoder call for a location at position \<open>i\<close> raises (a timeout, an
  unavailable service, or any other \<^verbatim>\<open>Exception\<close>), the worker puts one \<^verbatim>\<open>skipped\<close>
  item for that location, sleeps, and goes on with the loop over the remaining locations
  from the same cache contents; the run ends with \<^verbatim>\<open>finished\<close> as every run does, and
  when the stop flag is never set each later location gets its item. The worker is a
  total function whose handlers cover every value of \<^typ>\<open>py_exception\<close>: no exception
  of the call leaves it.
\<close>

theorem geocode_failure_contained:
  assumes "i < length locations" and "\<forall>j \<le> i. running env j" and "locations ! i = (city, state)"
    and "get_cached_location_db (db_read_raises env i) (cache_before env locations c i)
           (location_cache_key city state) = None"
    and "geocode env i (location_string city state) = Inl e"
  shows "\<exists>reason.
           fst (geocode_locations_in_thread env locations c) =
             fst (geocode_loop env 0 (take i locations) c)
             @ [CacheGet (location_cache_key city state), Geocode (location_string city state),
                Put (skipped city state reason), Sleep (11 / 10)]
             @ fst (geocode_loop env (Suc i) (drop (Suc i) locations) (cache_before env locations c i))
             @ [Put finished]
         \<and> ((\<forall>j < length locations. running env j) \<longrightarrow>
              list_all2 result_for (drop (Suc i) locations)
                (puts (fst (geocode_loop env (Suc i) (drop (Suc i) locations)
                              (cache_before env locations c i)))))"
proof -
  obtain reason where r: "except_geocode city state e = [Put (skipped city state reason)]"
    by (cases e) simp_all
  have pl: "process_location env i (city, state) (cache_before env locations c i) =
     ([CacheGet (location_cache_key city state), Geocode (location_string city state),
                Put (skipped city state reason), Sleep (11 / 10)], cache_before env locations c i)"
    using process_location_raise [OF assms(4,5)] r by simp
  have tr: "fst (geocode_locations_in_thread env locations c) =
             fst (geocode_loop env 0 (take i locations) c)
             @ [CacheGet (location_cache_key city state), Geocode (location_string city state),
                Put (skipped city state reason), Sleep (11 / 10)]
             @ fst (geocode_loop env (Suc i) (drop (Suc i) locations) (cache_before env locations c i))
             @ [Put finished]"
    using worker_split [OF assms(1,2), of c] assms(3) pl by simp
  have rest: "list_all2 result_for (drop (Suc i) locations)
                (puts (fst (geocode_loop env (Suc i) (drop (Suc i) locations)
                              (cache_before env locations c i))))"
    if "\<forall>j < length locations. running env j"
  proof (rule geocode_loop_all_running)
    show "\<forall>j<length (drop (Suc i) locations). running env (Suc i + j)"
      using that by simp
  qed
  from tr rest show ?thesis by blast
qed















theorem cache_hit_skips_geocoder_and_throttle_witness:
  "process_location example_env 0 (''Jackson'', ''MS'')
       (cache_before example_env example_locations jackson_cache 0)
     = ([CacheGet (location_cache_key ''Jackson'' ''MS''),
         Put (success_cached ''Jackson'' ''MS'' (323 / 10) (- (902 / 10)))],
        cache_before example_env example_locations jackson_cache 0)
   \<and> (\<exists>mid d. fst (process_location example_env 1 (''Nowhereville'', ''ZZ'')
                      (cache_before example_env example_locations jackson_cache 1))
               = CacheGet (location_cache_key ''Nowhereville'' ''ZZ'')
                   # Geocode (location_string ''Nowhereville'' ''ZZ'') # mid @ [Sleep d]
             \<and> d \<ge> 11 / 10)"
proof
  have hit: "get_cached_location_db (db_read_raises example_env 0)
          (cache_before example_env example_locations jackson_cache 0)
          (location_cache_key ''Jackson'' ''MS'') = Some (323 / 10, - (902 / 10))"
    by (simp add: example_env_def cache_before_def jackson_cache_def worker_eval)
  have "0 < length example_locations" "\<forall>j \<le> 0. running example_env j"
       "example_locations ! 0 = (''Jackson'', ''MS'')"
    by (simp_all add: example_env_def example_locations_def)
  from cache_hit_skips_geocoder_and_throttle [OF this, of jackson_cache] hit
  show "process_location example_env 0 (''Jackson'', ''MS'')
       (cache_before example_env example_locations jackson_cache 0)
     = ([CacheGet (location_cache_key ''Jackson'' ''MS''),
         Put (success_cached ''Jackson'' ''MS'' (323 / 10) (- (902 / 10)))],
        cache_before example_env example_locations jackson_cache 0)"
    by blast
next
  have miss: "get_cached_location_db (db_read_raises example_env 1)
          (cache_before example_env example_locations jackson_cache 1)
          (location_cache_key ''Nowhereville'' ''ZZ'') = None"
    by (simp add: example_env_def example_locations_def cache_before_def jackson_cache_def worker_eval)
  have "1 < length example_locations" "\<forall>j \<le> 1. running example_env j"
       "example_locations ! 1 = (''Nowhereville'', ''ZZ'')"
    by (simp_all add: example_env_def example_locations_def)
  from cache_hit_skips_geocoder_and_throttle [OF this, of jackson_cache] miss
  show "\<exists>mid d. fst (process_location example_env 1 (''Nowhereville'', ''ZZ'')
                      (cache_before example_env example_locations jackson_cache 1))
               = CacheGet (location_cache_key ''Nowhereville'' ''ZZ'')
                   # Geocode (location_string ''Nowhereville'' ''ZZ'') # mid @ [Sleep d]
             \<and> d \<ge> 11 / 10"
    by blast
qed

theorem geocode_failure_contained_witness:
  "\<exists>reason.
     fst (geocode_locations_in_thread example_env slow_locations Map.empty) =
       fst (geocode_loop example_env 0 (take 0 slow_locations) Map.empty)
       @ [CacheGet (location_cache_key ''Slowtown'' ''MS''), Geocode (location_string ''Slowtown'' ''MS''),
          Put (skipped ''Slowtown'' ''MS'' reason), Sleep (11 / 10)]
       @ fst (geocode_loop example_env (Suc 0) (drop (Suc 0) slow_locations)
                (cache_before example_env slow_locations Map.empty 0))
       @ [Put finished]
     \<and> list_all2 result_for (drop (Suc 0) slow_locations)
          (puts (fst (geocode_loop example_env (Suc 0) (drop (Suc 0) slow_locations)
                        (cache_before example_env slow_locations Map.empty 0))))"
proof -
  have "0 < length slow_locations" "\<forall>j \<le> 0. running example_env j"
       "slow_locations ! 0 = (''Slowtown'', ''MS'')"
       "get_cached_location_db (db_read_raises example_env 0)
          (cache_before example_env slow_locations Map.empty 0)
          (location_cache_key ''Slowtown'' ''MS'') = None"
       "geocode example_env 0 (location_string ''Slowtown'' ''MS'') = Inl GeocoderTimedOut"
    by (simp_all add: example_env_def slow_locations_def cache_before_def worker_eval)
  from geocode_failure_contained [OF this]
  have "\<exists>reason.
           fst (geocode_locations_in_thread example_env slow_locations Map.empty) =
             fst (geocode_loop example_env 0 (take 0 slow_locations) Map.empty)
             @ [CacheGet (location_cache_key ''Slowtown'' ''MS''), Geocode (location_string ''Slowtown'' ''MS''),
                Put (skipped ''Slowtown'' ''MS'' reason), Sleep (11 / 10)]
             @ fst (geocode_loop example_env (Suc 0) (drop (Suc 0) slow_locations) (cache_before example_env slow_locations Map.empty 0))
             @ [Put finished]
         \<and> ((\<forall>j < length slow_locations. running example_env j) \<longrightarrow>
              list_all2 result_for (drop (Suc 0) slow_locations)
                (puts (fst (geocode_loop example_env (Suc 0) (drop (Suc 0) slow_locations)
                              (cache_before example_env slow_locations Map.empty 0)))))" .
  moreover have "\<forall>j < length slow_locations. running example_env j"
    by (simp add: example_env_def)
  ultimately show ?thesis by blast
qed


text \<open>
  C9. The key \<^verbatim>\<open>f"{city}|{state}"\<close> is not injective: \<open>(Bay|St, Louis)\<close> and
  \<open>(Bay, St|Louis)\<close> are different locations with the same key. After the first has been
  geocoded and cached, a run over the second reads the first one's coordinates as a
  cache hit although the geocoder finds nothing for it; and a write for the second
  replaces the row of the first.
\<close>

theorem key_not_injective:
  "(''Bay|St'', ''Louis'') \<noteq> (''Bay'', ''St|Louis'')
   \<and> location_cache_key ''Bay|St'' ''Louis'' = location_cache_key ''Bay'' ''St|Louis''
   \<and> \<not> inj (\<lambda>(city, state). location_cache_key city state)
   \<and> puts (fst (geocode_locations_in_thread (anywhere_env\<lparr>geocode := (\<lambda>_ _. Inr None)\<rparr>)
                  [(''Bay'', ''St|Louis'')]
                  (snd (geocode_locations_in_thread anywhere_env [(''Bay|St'', ''Louis'')] Map.empty))))
       = [success_cached ''Bay'' ''St|Louis'' 30 (- 90), finished]
   \<and> snd (add_cached_location_db False [location_cache_key ''Bay|St'' ''Louis'' \<mapsto> (30, - 90)]
            (location_cache_key ''Bay'' ''St|Louis'') 31 (- 91))
       (location_cache_key ''Bay|St'' ''Louis'') = Some (31, - 91)"
proof -
  have k: "location_cache_key ''Bay|St'' ''Louis'' = location_cache_key ''Bay'' ''St|Louis''"
    by (simp add: location_cache_key_def)
  have "\<not> inj (\<lambda>(city, state). location_cache_key city state)"
  proof
    assume "inj (\<lambda>(city, state). location_cache_key city state)"
    then have "(''Bay|St'', ''Louis'') = (''Bay'', ''St|Louis'')"
      using k by (auto dest!: injD [where x = "(''Bay|St'', ''Louis'')" and y = "(''Bay'', ''St|Louis'')"])
    then show False by simp
  qed
  then show ?thesis
    by (simp add: anywhere_env_def example_env_def worker_eval)
qed

section \<open>Properties of the user-interface side\<close>

lemma update_status_frame [simp]:
  "root_running (update_status m s) = root_running s"
  "map_widget (update_status m s) = map_widget s"
  "map_markers (update_status m s) = map_markers s"
  "grouped_cases_by_location (update_status m s) = grouped_cases_by_location s"
  "geocoding_queue (update_status m s) = geocoding_queue s"
  "geocoding_thread (update_status m s) = geocoding_thread s"
  "processing_queue (update_status m s) = processing_queue s"
  "geolocated_count (update_status m s) = geolocated_count s"
  "skipped_count (update_status m s) = skipped_count s"
  "geocoding_after_id (update_status m s) = geocoding_after_id s"
  "queues (update_status m s) = queues s"
  "queue_count (update_status m s) = queue_count s"
  "threads (update_status m s) = threads s"
  "thread_count (update_status m s) = thread_count s"
  "geocache_table (update_status m s) = geocache_table s"
  "status_text (update_status m s) = m"
  by (simp_all add: update_status_def Let_def split: option.splits)

lemma update_status_alive [simp]:
  "map_widget_alive (update_status m s) = map_widget_alive s"
  by (simp add: map_widget_alive_def)

lemma process_skipped_frame [simp]:
  "skipped_count (process_skipped s) = skipped_count s + 1"
  "geolocated_count (process_skipped s) = geolocated_count s"
  "map_markers (process_skipped s) = map_markers s"
  "map_widget (process_skipped s) = map_widget s"
  "geocoding_thread (process_skipped s) = geocoding_thread s"
  "geocoding_queue (process_skipped s) = geocoding_queue s"
  "queues (process_skipped s) = queues s"
  "threads (process_skipped s) = threads s"
  "thread_count (process_skipped s) = thread_count s"
  "queue_count (process_skipped s) = queue_count s"
  "root_running (process_skipped s) = root_running s"
  "processing_queue (process_skipped s) = processing_queue s"
  "geocache_table (process_skipped s) = geocache_table s"
  by (simp_all add: process_skipped_def Let_def)

lemma process_skipped_alive [simp]:
  "map_widget_alive (process_skipped s) = map_widget_alive s"
  by (simp add: map_widget_alive_def)

lemma reset_status_bar_frame [simp]:
  "root_running (reset_status_bar s) = root_running s"
  "map_widget (reset_status_bar s) = map_widget s"
  "map_markers (reset_status_bar s) = map_markers s"
  "grouped_cases_by_location (reset_status_bar s) = grouped_cases_by_location s"
  "geocoding_queue (reset_status_bar s) = geocoding_queue s"
  "geocoding_thread (reset_status_bar s) = geocoding_thread s"
  "processing_queue (reset_status_bar s) = processing_queue s"
  "geolocated_count (reset_status_bar s) = geolocated_count s"
  "skipped_count (reset_status_bar s) = skipped_count s"
  "geocoding_after_id (reset_status_bar s) = geocoding_after_id s"
  "queues (reset_status_bar s) = queues s"
  "queue_count (reset_status_bar s) = queue_count s"
  "threads (reset_status_bar s) = threads s"
  "thread_count (reset_status_bar s) = thread_count s"
  "geocache_table (reset_status_bar s) = geocache_table s"
  by (simp_all add: reset_status_bar_def split: option.splits)

lemma final_map_status_widget:
  "winfo_exists (fst (final_map_status uenv s w)) = winfo_exists w"
  "canvas_markers (fst (final_map_status uenv s w)) = canvas_markers w"
  by (simp_all add: final_map_status_def Let_def split_beta)

lemma finalize_frame [simp]:
  "geocoding_thread (finalize_map_loading uenv s) = geocoding_thread s"
  "geocoding_queue (finalize_map_loading uenv s) = geocoding_queue s"
  "queues (finalize_map_loading uenv s) = queues s"
  "threads (finalize_map_loading uenv s) = threads s"
  "thread_count (finalize_map_loading uenv s) = thread_count s"
  "queue_count (finalize_map_loading uenv s) = queue_count s"
  "root_running (finalize_map_loading uenv s) = root_running s"
  "processing_queue (finalize_map_loading uenv s) = processing_queue s"
  "geocache_table (finalize_map_loading uenv s) = geocache_table s"
  "geolocated_count (finalize_map_loading uenv s) = geolocated_count s"
  "skipped_count (finalize_map_loading uenv s) = skipped_count s"
  "map_markers (finalize_map_loading uenv s) = map_markers s"
  "grouped_cases_by_location (finalize_map_loading uenv s) = grouped_cases_by_location s"
  by (simp_all add: finalize_map_loading_def split_beta split: option.splits)

lemma finalize_widget:
  "map_widget (finalize_map_loading uenv s) =
     (case map_widget s of
        None \<Rightarrow> None
      | Some w \<Rightarrow>
          if winfo_exists w
          then Some ((fst (final_map_status uenv s w))\<lparr>map_status_label := snd (final_map_status uenv s w)\<rparr>)
          else Some w)"
  by (simp add: finalize_map_loading_def split_beta split: option.splits)

lemma finalize_alive [simp]:
  "map_widget_alive (finalize_map_loading uenv s) = map_widget_alive s"
  by (simp add: finalize_widget map_widget_alive_def final_map_status_widget split: option.splits)

lemma finalize_drawn [simp]:
  "drawn_markers (finalize_map_loading uenv s) = drawn_markers s"
  by (simp add: finalize_widget drawn_markers_def final_map_status_widget split: option.splits)

lemma process_success_frame [simp]:
  "geocoding_thread (process_success uenv c st la lo s) = geocoding_thread s"
  "geocoding_queue (process_success uenv c st la lo s) = geocoding_queue s"
  "queues (process_success uenv c st la lo s) = queues s"
  "threads (process_success uenv c st la lo s) = threads s"
  "thread_count (process_success uenv c st la lo s) = thread_count s"
  "queue_count (process_success uenv c st la lo s) = queue_count s"
  "root_running (process_success uenv c st la lo s) = root_running s"
  "processing_queue (process_success uenv c st la lo s) = processing_queue s"
  "geocache_table (process_success uenv c st la lo s) = geocache_table s"
  "grouped_cases_by_location (process_success uenv c st la lo s) = grouped_cases_by_location s"
  by (simp_all add: process_success_def Let_def)

lemma process_success_alive [simp]:
  "map_widget_alive (process_success uenv c st la lo s) = map_widget_alive s"
  by (cases "map_widget s") (simp_all add: map_widget_alive_def process_success_def Let_def)

lemma process_success_geolocated:
  "geolocated_count (process_success uenv c st la lo s) =
     (if set_marker_raises uenv la lo (info_text_for_popup (grouped_cases_by_location s) c st)
      then geolocated_count s else geolocated_count s + 1)"
  by (simp add: process_success_def Let_def)


lemma process_success_skipped:
  "status_updates_ok uenv \<Longrightarrow>
   skipped_count (process_success uenv c st la lo s) =
     (if set_marker_raises uenv la lo (info_text_for_popup (grouped_cases_by_location s) c st)
      then skipped_count s + 1 else skipped_count s)"
  by (simp add: process_success_def Let_def status_updates_ok_def)

lemmas process_success_counters = process_success_geolocated process_success_skipped

lemma alive_other_fields [simp]:
  "map_widget_alive (processing_queue_update f s) = map_widget_alive s"
  "map_widget_alive (geocoding_thread_update g s) = map_widget_alive s"
  "map_widget_alive (geocoding_after_id_update h s) = map_widget_alive s"
  "map_widget_alive (queues_update k s) = map_widget_alive s"
  "map_widget_alive (threads_update k' s) = map_widget_alive s"
  "map_widget_alive (geocache_table_update k'' s) = map_widget_alive s"
  by (simp_all add: map_widget_alive_def)

lemma drain_loop_frame:
  "queues (snd (drain_loop uenv q s)) = queues s
   \<and> threads (snd (drain_loop uenv q s)) = threads s
   \<and> thread_count (snd (drain_loop uenv q s)) = thread_count s
   \<and> queue_count (snd (drain_loop uenv q s)) = queue_count s
   \<and> geocoding_queue (snd (drain_loop uenv q s)) = geocoding_queue s
   \<and> root_running (snd (drain_loop uenv q s)) = root_running s
   \<and> geocache_table (snd (drain_loop uenv q s)) = geocache_table s
   \<and> map_widget_alive (snd (drain_loop uenv q s)) = map_widget_alive s"
proof (induction q arbitrary: s)
  case Nil
  then show ?case by simp
next
  case (Cons x q)
  show ?case
    by (cases x) (simp_all add: Cons.IH Let_def)
qed

lemma drain_loop_thread:
  "finished \<notin> set q \<Longrightarrow> geocoding_thread (snd (drain_loop uenv q s)) = geocoding_thread s"
proof (induction q arbitrary: s)
  case Nil
  then show ?case by simp
next
  case (Cons x q)
  then show ?case
    by (cases x) (simp_all add: Let_def)
qed

lemma drain_loop_suffix:
  "\<exists>pre. q = pre @ fst (drain_loop uenv q s)"
proof (induction q arbitrary: s)
  case Nil
  then show ?case by simp
next
  case (Cons x q)
  have *: "\<exists>pre. x # q = pre @ fst (drain_loop uenv q s')" for s'
    using Cons.IH [of s'] by (metis append_Cons)
  have **: "\<exists>pre. x # q = pre @ q" by (rule exI [of _ "[x]"]) simp
  show ?case
    using * ** by (cases x) (auto simp: Let_def)
qed



lemma process_geocoding_results_counters:
  "geolocated_count (process_geocoding_results uenv s) = geolocated_count (snd (drain_loop uenv (queues s (geocoding_queue s)) s))"
  "skipped_count (process_geocoding_results uenv s) = skipped_count (snd (drain_loop uenv (queues s (geocoding_queue s)) s))"
  by (simp_all add: process_geocoding_results_def Let_def split_beta)


lemma load_refused:
  "thread_is_alive s \<or> \<not> map_widget_alive s \<Longrightarrow>
   load_map_markers lenv s =
     update_status (if map_widget_alive s then ''Map loading already in progress.''
                    else ''Map widget not available.'') s"
  by (auto simp: load_map_markers_def map_widget_alive_def split: option.splits)


lemma thread_step_counters:
  "geolocated_count (thread_step env t s) = geolocated_count s"
  "skipped_count (thread_step env t s) = skipped_count s"
  by (simp_all add: thread_step_def Let_def split_beta split: thread_phase.splits list.splits)








lemma strip_examples:
  "strip ''Jackson'' = ''Jackson''" "strip ''MS'' = ''MS''" "strip [] = []"
  "strip ''Fraud'' = ''Fraud''" "strip ''Theft'' = ''Theft''"
  by (simp_all add: strip_def is_space_def)

lemma group_example_cases:
  "group_cases example_cases ({}, []) =
     ({(''Jackson'', ''MS'')},
      [((''Jackson'', ''MS''), [example_cases ! 0, example_cases ! 1])])"
  by (simp add: example_cases_def or_empty_def strip_examples Let_def)

lemma example_cases_nonempty: "example_cases \<noteq> []"
  by (simp add: example_cases_def)

lemma ui_ready_alive: "map_widget_alive ui_ready" "\<not> thread_is_alive ui_ready"
  by (simp_all add: ui_ready_def create_status_label_def create_map_widgets_def init_state_def
       map_widget_alive_def thread_is_alive_def)

lemma load_example:
  "load_map_markers example_load ui_ready =
     \<lparr>root_running = True,
      map_widget = Some \<lparr>winfo_exists = True, canvas_markers = [], viewport = default_view,
                         map_status_label = ''Map status: Not Loaded''\<rparr>,
      status_label = Some \<lparr>label_exists = True,
                           label_text = ''Loading map markers (Geocoding in progress)...''\<rparr>,
      status_text = ''Loading map markers (Geocoding in progress)...'',
      status_animation_id = None, map_markers = [],
      grouped_cases_by_location =
        [((''Jackson'', ''MS''), [example_cases ! 0, example_cases ! 1])],
      geocoding_queue = 1, geocoding_thread = Some 0, processing_queue = True,
      geolocated_count = 0, skipped_count = 0, geocoding_after_id = Some 1,
      queues = (\<lambda>_. []), queue_count = 2,
      threads = (\<lambda>_. \<lparr>thread_queue = 0, remaining = [], index = 0, phase = Exited\<rparr>)
                  (0 := \<lparr>thread_queue = 1, remaining = [(''Jackson'', ''MS'')], index = 0,
                          phase = InLoop\<rparr>),
      thread_count = 1, geocache_table = Map.empty\<rparr>"
  by (simp add: load_map_markers_def example_load_def group_example_cases ui_ready_def
      create_status_label_def create_map_widgets_def init_state_def update_status_def Let_def
      process_geocoding_results_def quiet_ui_def map_widget_alive_def thread_is_alive_def
      startswith_def fun_upd_idem example_cases_nonempty)

lemma step_example:
  "queues (thread_step example_env 0 (load_map_markers example_load ui_ready)) (Suc 0)
     = [success_geocoded ''Jackson'' ''MS'' (323 / 10) (- (902 / 10))]"
  "geocoding_queue (thread_step example_env 0 (load_map_markers example_load ui_ready)) = Suc 0"
  "map_widget_alive (thread_step example_env 0 (load_map_markers example_load ui_ready))"
  by (simp_all add: load_example thread_step_def example_env_def worker_eval map_widget_alive_def)


lemma skipped_suffix_one: "skipped_suffix 1 = '' (1 skipped/errored)''"
  by code_simp

lemma final_map_status_suffix:
  "skipped_count s > 0 \<Longrightarrow>
   \<exists>base. snd (final_map_status uenv s w) = base @ skipped_suffix (skipped_count s)"
  by (simp add: final_map_status_def Let_def split_beta)

lemma finalize_map_status:
  assumes "map_widget_alive s" and "skipped_count s > 0"
  shows "\<exists>base. map_status (finalize_map_loading uenv s) = Some (base @ skipped_suffix (skipped_count s))"
proof -
  from assms(1) obtain w where w: "map_widget s = Some w" "winfo_exists w"
    by (auto simp: map_widget_alive_def split: option.splits)
  obtain base where "snd (final_map_status uenv s w) = base @ skipped_suffix (skipped_count s)"
    using final_map_status_suffix [OF assms(2)] by blast
  with w show ?thesis
    by (simp add: map_status_def finalize_widget)
qed

lemma drain_skipped_item:
  assumes "map_widget_alive s"
  shows "skipped_count (snd (drain_loop uenv [skipped city st reason] s)) = skipped_count s + 1"
    "geolocated_count (snd (drain_loop uenv [skipped city st reason] s)) = geolocated_count s"
    "map_markers (snd (drain_loop uenv [skipped city st reason] s)) = map_markers s"
    "drawn_markers (snd (drain_loop uenv [skipped city st reason] s)) = drawn_markers s"
  using assms by (simp_all add: drawn_markers_def)

text \<open>
  C7, as stated, fails in the reason it names: when the geocoder returns no result the
  item put is \<^verbatim>\<open>('skipped', city, state, "Could not geolocate via Nominatim")\<close>, not one
  with the reason "not found".
\<close>

theorem no_result_counterexample:
  "geocode example_env 0 (location_string ''Nowhereville'' ''ZZ'') = Inr None
   \<and> puts (fst (geocode_locations_in_thread example_env [(''Nowhereville'', ''ZZ'')] Map.empty))
       = [skipped ''Nowhereville'' ''ZZ'' ''Could not geolocate via Nominatim'', finished]
   \<and> skipped ''Nowhereville'' ''ZZ'' ''not found''
       \<notin> set (puts (fst (geocode_locations_in_thread example_env [(''Nowhereville'', ''ZZ'')] Map.empty)))"
  by (simp add: example_env_def worker_eval)

text \<open>
  C7, amended. When the lookup misses and the geocoder returns no result, the worker puts
  exactly one \<^verbatim>\<open>skipped\<close> item for the location, with the reason
  "Could not geolocate via Nominatim". With the map widget in place, the drain adds one
  to \<^verbatim>\<open>skipped_count\<close> for it, leaves \<^verbatim>\<open>geolocated_count\<close> alone and places no marker
  (neither in \<^verbatim>\<open>map_markers\<close> nor on the widget); and when \<^verbatim>\<open>skipped_count\<close> is 1 at
  the finalize step, the text put in \<^verbatim>\<open>map_status_label\<close> ends with
  " (1 skipped/errored)".
\<close>

theorem no_result_is_skipped:
  assumes "get_cached_location_db (db_read_raises env i) c (location_cache_key city st) = None"
    and "geocode env i (location_string city st) = Inr None"
    and "map_widget_alive s"
  shows "puts (fst (process_location env i (city, st) c))
           = [skipped city st ''Could not geolocate via Nominatim'']
       \<and> skipped_count (snd (drain_loop uenv [skipped city st reason] s)) = skipped_count s + 1
       \<and> geolocated_count (snd (drain_loop uenv [skipped city st reason] s)) = geolocated_count s
       \<and> map_markers (snd (drain_loop uenv [skipped city st reason] s)) = map_markers s
       \<and> drawn_markers (snd (drain_loop uenv [skipped city st reason] s)) = drawn_markers s
       \<and> (skipped_count s = 1 \<longrightarrow>
            (\<exists>base. map_status (finalize_map_loading uenv s) = Some (base @ '' (1 skipped/errored)'')))"
proof -
  have a: "puts (fst (process_location env i (city, st) c))
           = [skipped city st ''Could not geolocate via Nominatim'']"
    using process_location_none [OF assms(1,2)] by simp
  have b: "\<exists>base. map_status (finalize_map_loading uenv s) = Some (base @ '' (1 skipped/errored)'')"
    if "skipped_count s = 1"
    using finalize_map_status [OF assms(3), of uenv] that skipped_suffix_one by simp
  from a b drain_skipped_item [OF assms(3), of uenv city st reason] show ?thesis
    by blast
qed

theorem no_result_is_skipped_witness:
  "puts (fst (process_location example_env 0 (''Nowhereville'', ''ZZ'') Map.empty))
     = [skipped ''Nowhereville'' ''ZZ'' ''Could not geolocate via Nominatim'']
   \<and> skipped_count (snd (drain_loop quiet_ui
         [skipped ''Nowhereville'' ''ZZ'' ''Could not geolocate via Nominatim''] ui_ready)) = 1
   \<and> map_markers (snd (drain_loop quiet_ui
         [skipped ''Nowhereville'' ''ZZ'' ''Could not geolocate via Nominatim''] ui_ready)) = []
   \<and> (\<exists>base. map_status (finalize_map_loading quiet_ui (snd (drain_loop quiet_ui
         [skipped ''Nowhereville'' ''ZZ'' ''Could not geolocate via Nominatim''] ui_ready)))
        = Some (base @ '' (1 skipped/errored)''))"
proof -
  let ?r = "''Could not geolocate via Nominatim''"
  let ?s1 = "snd (drain_loop quiet_ui [skipped ''Nowhereville'' ''ZZ'' ?r] ui_ready)"
  have h: "get_cached_location_db (db_read_raises example_env 0) Map.empty
             (location_cache_key ''Nowhereville'' ''ZZ'') = None"
      "geocode example_env 0 (location_string ''Nowhereville'' ''ZZ'') = Inr None"
    by (simp_all add: example_env_def worker_eval)
  have z: "skipped_count ui_ready = 0" "map_markers ui_ready = []"
    by (simp_all add: ui_ready_def create_status_label_def create_map_widgets_def init_state_def)
  have 1: "puts (fst (process_location example_env 0 (''Nowhereville'', ''ZZ'') Map.empty))
            = [skipped ''Nowhereville'' ''ZZ'' ?r]
          \<and> skipped_count ?s1 = skipped_count ui_ready + 1
          \<and> map_markers ?s1 = map_markers ui_ready"
    using no_result_is_skipped [OF h ui_ready_alive(1), of quiet_ui ?r] by blast
  have alive: "map_widget_alive ?s1"
    using ui_ready_alive(1) by (simp add: drain_loop_frame)
  have 2: "skipped_count ?s1 = 1" using 1 z by simp
  have 3: "\<exists>base. map_status (finalize_map_loading quiet_ui ?s1) = Some (base @ '' (1 skipped/errored)'')"
    using no_result_is_skipped [OF h alive, of quiet_ui ?r] 2 by blast
  from 1 2 3 z show ?thesis by simp
qed

text \<open>
  C8. For the three case rows of the scenario, the set of unique locations is
  \<open>{(Jackson, MS)}\<close>; only the first two rows are grouped (the row with the empty city
  is left out), and the worker thread is started on the one location. The offense types
  listed are Fraud and Theft, once each and sorted, and the popup text, which is also the
  data of the marker placed for Jackson, is
  "City of Offense: Jackson", an empty line, "Types of Offense:", "- Fraud", "- Theft".
\<close>

theorem jackson_unique_location_and_popup:
  "fst (group_cases example_cases ({}, [])) = {(''Jackson'', ''MS'')}
   \<and> snd (group_cases example_cases ({}, []))
       = [((''Jackson'', ''MS''), [example_cases ! 0, example_cases ! 1])]
   \<and> sorted_list_of_set (unique_offense_types [example_cases ! 0, example_cases ! 1])
       = [''Fraud'', ''Theft'']
   \<and> info_text_for_popup (snd (group_cases example_cases ({}, []))) ''Jackson'' ''MS''
       = ''City of Offense: Jackson'' @ newline @ newline @ ''Types of Offense:'' @ newline
           @ ''- Fraud'' @ newline @ ''- Theft''
   \<and> remaining (threads (load_map_markers example_load ui_ready) 0) = [(''Jackson'', ''MS'')]
   \<and> map_of (map_markers (snd (drain_loop quiet_ui
          [success_geocoded ''Jackson'' ''MS'' (323 / 10) (- (902 / 10))]
          (load_map_markers example_load ui_ready)))) (''Jackson'', ''MS'')
       = Some \<lparr>position = (323 / 10, - (902 / 10)),
               data = ''City of Offense: Jackson'' @ newline @ newline @ ''Types of Offense:''
                        @ newline @ ''- Fraud'' @ newline @ ''- Theft''\<rparr>"
proof -
  have u: "sorted_list_of_set (unique_offense_types [example_cases ! 0, example_cases ! 1])
       = [''Fraud'', ''Theft'']"
    by (simp add: unique_offense_types_def example_cases_def or_empty_def strip_examples
          sorted_list_of_set_sort_remdups)
  have p: "info_text_for_popup [((''Jackson'', ''MS''), [example_cases ! 0, example_cases ! 1])]
             ''Jackson'' ''MS''
       = ''City of Offense: Jackson'' @ newline @ newline @ ''Types of Offense:'' @ newline
           @ ''- Fraud'' @ newline @ ''- Theft''"
    by (simp add: info_text_for_popup_def unique_offense_types_def example_cases_def
          or_empty_def strip_examples sorted_list_of_set_sort_remdups newline_def strip_def
          is_space_def Let_def)
  have m: "map_of (map_markers (snd (drain_loop quiet_ui
          [success_geocoded ''Jackson'' ''MS'' (323 / 10) (- (902 / 10))]
          (load_map_markers example_load ui_ready)))) (''Jackson'', ''MS'')
       = Some \<lparr>position = (323 / 10, - (902 / 10)),
               data = info_text_for_popup [((''Jackson'', ''MS''), [example_cases ! 0, example_cases ! 1])]
             ''Jackson'' ''MS''\<rparr>"
    by (simp add: load_example map_widget_alive_def process_success_def quiet_ui_def Let_def)
  have r: "remaining (threads (load_map_markers example_load ui_ready) 0) = [(''Jackson'', ''MS'')]"
    by (simp add: load_example)
  from u p m r show ?thesis
    by (simp add: group_example_cases)
qed

section \<open>One batch at a time\<close>

lemma one_batch_invI:
  assumes "\<And>u. phase (threads s u) = InLoop \<Longrightarrow>
             geocoding_thread s = Some u \<and> thread_queue (threads s u) = geocoding_queue s
             \<and> finished \<notin> set (queues s (geocoding_queue s))"
    and "\<And>a. count_list (queues s a) finished \<le> 1"
  shows "one_batch_inv s"
  using assms by (simp add: one_batch_inv_def batch_active_def)

lemma one_batch_invD:
  assumes "one_batch_inv s"
  shows "phase (threads s u) = InLoop \<Longrightarrow> geocoding_thread s = Some u"
    and "phase (threads s u) = InLoop \<Longrightarrow> thread_queue (threads s u) = geocoding_queue s"
    and "phase (threads s u) = InLoop \<Longrightarrow> finished \<notin> set (queues s (geocoding_queue s))"
    and "count_list (queues s a) finished \<le> 1"
  using assms by (simp_all add: one_batch_inv_def batch_active_def)

lemma process_geocoding_results_frame:
  "threads (process_geocoding_results uenv s) = threads s"
  "thread_count (process_geocoding_results uenv s) = thread_count s"
  "queue_count (process_geocoding_results uenv s) = queue_count s"
  "geocoding_queue (process_geocoding_results uenv s) = geocoding_queue s"
  "root_running (process_geocoding_results uenv s) = root_running s"
  "geocache_table (process_geocoding_results uenv s) = geocache_table s"
  "queues (process_geocoding_results uenv s) =
     (queues s)(geocoding_queue s := fst (drain_loop uenv (queues s (geocoding_queue s)) s))"
  "geocoding_thread (process_geocoding_results uenv s) =
     geocoding_thread (snd (drain_loop uenv (queues s (geocoding_queue s)) s))"
  using drain_loop_frame [of uenv "queues s (geocoding_queue s)" s]
  by (simp_all add: process_geocoding_results_def Let_def split_beta)

lemma count_list_suffix: "count_list ys x \<le> count_list (xs @ ys) x"
  by (induction xs) simp_all

lemma inv_drain:
  assumes "one_batch_inv s"
  shows "one_batch_inv (process_geocoding_results uenv s)"
proof (rule one_batch_invI)
  let ?q = "queues s (geocoding_queue s)"
  let ?q' = "fst (drain_loop uenv ?q s)"
  obtain pre where pre: "?q = pre @ ?q'"
    using drain_loop_suffix by blast
  {
    fix u
    assume "phase (threads (process_geocoding_results uenv s) u) = InLoop"
    then have act: "phase (threads s u) = InLoop"
      by (simp add: process_geocoding_results_frame)
    note a = one_batch_invD(1-3) [OF assms act]
    have "finished \<notin> set ?q'"
      using a(3) pre by (metis Un_iff set_append)
    then show "geocoding_thread (process_geocoding_results uenv s) = Some u
        \<and> thread_queue (threads (process_geocoding_results uenv s) u)
            = geocoding_queue (process_geocoding_results uenv s)
        \<and> finished \<notin> set (queues (process_geocoding_results uenv s)
                               (geocoding_queue (process_geocoding_results uenv s)))"
      using a by (simp add: process_geocoding_results_frame drain_loop_thread)
  }
  fix a
  have "count_list ?q' finished \<le> count_list (pre @ ?q') finished"
    by (rule count_list_suffix)
  also have "\<dots> = count_list ?q finished" using pre by simp
  also have "\<dots> \<le> 1" using assms by (rule one_batch_invD(4))
  finally have "count_list ?q' finished \<le> 1" .
  then show "count_list (queues (process_geocoding_results uenv s) a) finished \<le> 1"
    using one_batch_invD(4) [OF assms, of a] by (simp add: process_geocoding_results_frame)
qed

lemma thread_step_fixed [simp]:
  "geocoding_thread (thread_step env t s) = geocoding_thread s"
  "geocoding_queue (thread_step env t s) = geocoding_queue s"
  "thread_count (thread_step env t s) = thread_count s"
  "queue_count (thread_step env t s) = queue_count s"
  "map_widget (thread_step env t s) = map_widget s"
  "map_markers (thread_step env t s) = map_markers s"
  by (simp_all add: thread_step_def Let_def split_beta split: thread_phase.splits list.splits)

lemma thread_step_exited:
  "phase (threads s t) = Exited \<Longrightarrow> thread_step env t s = s"
  by (simp add: thread_step_def Let_def)

lemma thread_step_after_finished:
  assumes "phase (threads s t) = AfterFinished"
  shows "threads (thread_step env t s) = (threads s)(t := (threads s t)\<lparr>phase := Exited\<rparr>)"
    and "queues (thread_step env t s) = queues s"
  using assms by (simp_all add: thread_step_def Let_def)

lemma thread_step_put_finished:
  assumes "phase (threads s t) = InLoop" and "remaining (threads s t) = [] \<or> \<not> root_running s"
  shows "threads (thread_step env t s) = (threads s)(t := (threads s t)\<lparr>phase := AfterFinished\<rparr>)"
    and "queues (thread_step env t s) =
           (queues s)(thread_queue (threads s t) := queues s (thread_queue (threads s t)) @ [finished])"
  using assms by (auto simp: thread_step_def Let_def split: list.splits)

lemma thread_step_iteration:
  assumes "phase (threads s t) = InLoop" and "remaining (threads s t) = loc # rest"
    and "root_running s"
  shows "threads (thread_step env t s) =
           (threads s)(t := (threads s t)\<lparr>remaining := rest, index := Suc (index (threads s t))\<rparr>)"
    and "queues (thread_step env t s) =
           (queues s)(thread_queue (threads s t) := queues s (thread_queue (threads s t))
              @ puts (fst (process_location env (index (threads s t)) loc (geocache_table s))))"
  using assms by (simp_all add: thread_step_def Let_def split_beta)

lemma process_location_no_finished:
  "finished \<notin> set (puts (fst (process_location env i loc c)))"
proof -
  obtain city st where loc: "loc = (city, st)" by (cases loc)
  obtain x where "puts (fst (process_location env i (city, st) c)) = [x]" "result_for (city, st) x"
    using puts_process_location by blast
  with loc show ?thesis by auto
qed

lemma count_list_append: "count_list (xs @ ys) x = count_list xs x + count_list ys x"
  by (induction xs) simp_all

lemma inv_worker:
  assumes inv: "one_batch_inv s"
  shows "one_batch_inv (thread_step env t s)"
proof (cases "phase (threads s t)")
  case Exited
  then show ?thesis using inv by (simp add: thread_step_exited)
next
  case AfterFinished
  note st = thread_step_after_finished [OF AfterFinished, of env]
  show ?thesis
  proof (rule one_batch_invI)
    fix u
    assume u: "phase (threads (thread_step env t s) u) = InLoop"
    then have "u \<noteq> t" using st(1) by auto
    with u st(1) have act: "phase (threads s u) = InLoop" by simp
    from one_batch_invD(1-3) [OF inv act] \<open>u \<noteq> t\<close> st
    show "geocoding_thread (thread_step env t s) = Some u
        \<and> thread_queue (threads (thread_step env t s) u) = geocoding_queue (thread_step env t s)
        \<and> finished \<notin> set (queues (thread_step env t s) (geocoding_queue (thread_step env t s)))"
      by simp
  next
    fix a
    show "count_list (queues (thread_step env t s) a) finished \<le> 1"
      using one_batch_invD(4) [OF inv, of a] st(2) by simp
  qed
next
  case InLoop
  note a = one_batch_invD(1-3) [OF inv InLoop]
  have only: "u = t" if "phase (threads s u) = InLoop" for u
    using one_batch_invD(1) [OF inv that] a(1) by simp
  show ?thesis
  proof (cases "remaining (threads s t) = [] \<or> \<not> root_running s")
    case True
    note st = thread_step_put_finished [OF InLoop True, of env]
    show ?thesis
    proof (rule one_batch_invI)
      fix u
      assume u: "phase (threads (thread_step env t s) u) = InLoop"
      then have "u \<noteq> t" using st(1) by auto
      with u st(1) have "phase (threads s u) = InLoop" by simp
      then have "u = t" by (rule only)
      with \<open>u \<noteq> t\<close> show "geocoding_thread (thread_step env t s) = Some u
        \<and> thread_queue (threads (thread_step env t s) u) = geocoding_queue (thread_step env t s)
        \<and> finished \<notin> set (queues (thread_step env t s) (geocoding_queue (thread_step env t s)))"
        by simp
    next
      fix b
      have c0: "count_list (queues s (geocoding_queue s)) finished = 0"
        using a(3) by (simp add: count_list_0_iff)
      show "count_list (queues (thread_step env t s) b) finished \<le> 1"
        using one_batch_invD(4) [OF inv, of b] st(2) a(2) c0
        by (simp add: count_list_append)
    qed
  next
    case False
    then obtain loc rest where r: "remaining (threads s t) = loc # rest" and run: "root_running s"
      by (cases "remaining (threads s t)") auto
    note st = thread_step_iteration [OF InLoop r run, of env]
    let ?new = "puts (fst (process_location env (index (threads s t)) loc (geocache_table s)))"
    have nf: "finished \<notin> set ?new" by (rule process_location_no_finished)
    show ?thesis
    proof (rule one_batch_invI)
      fix u
      assume u: "phase (threads (thread_step env t s) u) = InLoop"
      have "phase (threads s u) = InLoop"
      proof (cases "u = t")
        case True
        with InLoop show ?thesis by simp
      next
        case False
        with u st(1) show ?thesis by simp
      qed
      then have ut: "u = t" by (rule only)
      show "geocoding_thread (thread_step env t s) = Some u
        \<and> thread_queue (threads (thread_step env t s) u) = geocoding_queue (thread_step env t s)
        \<and> finished \<notin> set (queues (thread_step env t s) (geocoding_queue (thread_step env t s)))"
        using ut a nf st by simp
    next
      fix b
      have c0: "count_list ?new finished = 0"
        using nf by (simp add: count_list_0_iff)
      show "count_list (queues (thread_step env t s) b) finished \<le> 1"
        using one_batch_invD(4) [OF inv, of b] one_batch_invD(4) [OF inv, of "geocoding_queue s"]
          st(2) a(2) c0
        by (simp add: count_list_append)
    qed
  qed
qed

lemma load_map_markers_effect:
  "(threads (load_map_markers lenv s) = threads s
      \<and> queues (load_map_markers lenv s) = queues s
      \<and> geocoding_thread (load_map_markers lenv s) = geocoding_thread s
      \<and> geocoding_queue (load_map_markers lenv s) = geocoding_queue s)
   \<or> (\<not> thread_is_alive s
      \<and> (\<exists>locs. threads (load_map_markers lenv s) =
            (threads s)(thread_count s :=
               \<lparr>thread_queue = queue_count s, remaining = locs, index = 0, phase = InLoop\<rparr>))
      \<and> queues (load_map_markers lenv s) = (queues s)(queue_count s := [])
      \<and> geocoding_thread (load_map_markers lenv s) = Some (thread_count s)
      \<and> geocoding_queue (load_map_markers lenv s) = queue_count s)"
proof (cases "thread_is_alive s \<or> \<not> map_widget_alive s")
  case True
  then show ?thesis by (simp add: load_refused)
next
  case False
  then obtain w where w: "map_widget s = Some w" "winfo_exists w" and na: "\<not> thread_is_alive s"
    by (auto simp: map_widget_alive_def split: option.splits)
  show ?thesis
  proof (cases "all_cases lenv = []")
    case True
    with w na show ?thesis by (simp add: load_map_markers_def Let_def)
  next
    case False
    note cases_ne = this
    show ?thesis
    proof (cases "listing lenv (fst (group_cases (all_cases lenv) ({}, []))) = []")
      case True
      with w na cases_ne show ?thesis by (simp add: load_map_markers_def Let_def split_beta)
    next
      case False
      let ?locs = "listing lenv (fst (group_cases (all_cases lenv) ({}, [])))"
      from w na cases_ne False have
        "threads (load_map_markers lenv s) =
            (threads s)(thread_count s :=
               \<lparr>thread_queue = queue_count s, remaining = ?locs, index = 0, phase = InLoop\<rparr>)"
        "queues (load_map_markers lenv s) = (queues s)(queue_count s := [])"
        "geocoding_thread (load_map_markers lenv s) = Some (thread_count s)"
        "geocoding_queue (load_map_markers lenv s) = queue_count s"
        by (simp_all add: load_map_markers_def Let_def split_beta process_geocoding_results_frame)
      with na show ?thesis by blast
    qed
  qed
qed

lemma inv_load:
  assumes inv: "one_batch_inv s"
  shows "one_batch_inv (load_map_markers lenv s)"
proof -
  let ?s' = "load_map_markers lenv s"
  from load_map_markers_effect [of lenv s]
  show ?thesis
  proof
    assume same: "threads ?s' = threads s \<and> queues ?s' = queues s
      \<and> geocoding_thread ?s' = geocoding_thread s \<and> geocoding_queue ?s' = geocoding_queue s"
    show ?thesis
    proof (rule one_batch_invI)
      fix u
      assume "phase (threads ?s' u) = InLoop"
      with same have act: "phase (threads s u) = InLoop" by simp
      from one_batch_invD(1-3) [OF inv act] same
      show "geocoding_thread ?s' = Some u \<and> thread_queue (threads ?s' u) = geocoding_queue ?s'
        \<and> finished \<notin> set (queues ?s' (geocoding_queue ?s'))"
        by simp
    next
      fix a
      show "count_list (queues ?s' a) finished \<le> 1"
        using one_batch_invD(4) [OF inv, of a] same by simp
    qed
  next
    assume new: "\<not> thread_is_alive s
      \<and> (\<exists>locs. threads ?s' =
            (threads s)(thread_count s :=
               \<lparr>thread_queue = queue_count s, remaining = locs, index = 0, phase = InLoop\<rparr>))
      \<and> queues ?s' = (queues s)(queue_count s := [])
      \<and> geocoding_thread ?s' = Some (thread_count s)
      \<and> geocoding_queue ?s' = queue_count s"
    then obtain locs where th: "threads ?s' =
            (threads s)(thread_count s :=
               \<lparr>thread_queue = queue_count s, remaining = locs, index = 0, phase = InLoop\<rparr>)"
      by blast
    have none: "phase (threads s u) \<noteq> InLoop" for u
    proof
      assume act: "phase (threads s u) = InLoop"
      then have "geocoding_thread s = Some u" by (rule one_batch_invD(1) [OF inv])
      with act have "thread_is_alive s" by (simp add: thread_is_alive_def)
      with new show False by simp
    qed
    show ?thesis
    proof (rule one_batch_invI)
      fix u
      assume u: "phase (threads ?s' u) = InLoop"
      have "u = thread_count s"
      proof (rule ccontr)
        assume "u \<noteq> thread_count s"
        with u th have "phase (threads s u) = InLoop" by simp
        with none show False by simp
      qed
      with new th
      show "geocoding_thread ?s' = Some u \<and> thread_queue (threads ?s' u) = geocoding_queue ?s'
        \<and> finished \<notin> set (queues ?s' (geocoding_queue ?s'))"
        by simp
    next
      fix a
      show "count_list (queues ?s' a) finished \<le> 1"
        using one_batch_invD(4) [OF inv, of a] new by simp
    qed
  qed
qed

lemma inv_other:
  assumes "one_batch_inv s"
  shows "one_batch_inv (create_map_widgets s)"
    and "one_batch_inv (create_status_label s)"
    and "one_batch_inv (on_closing s)"
  using assms
  by (simp_all add: one_batch_inv_def batch_active_def create_map_widgets_def
        create_status_label_def on_closing_def Let_def)

lemma inv_init: "one_batch_inv init_state"
  by (simp add: one_batch_inv_def batch_active_def init_state_def)

lemma reachable_inv: "reachable s \<Longrightarrow> one_batch_inv s"
proof (induction rule: reachable.induct)
  case init
  show ?case by (rule inv_init)
next
  case (widgets s)
  then show ?case by (simp add: inv_other)
next
  case (status_bar s)
  then show ?case by (simp add: inv_other)
next
  case (load s lenv)
  then show ?case by (simp add: inv_load)
next
  case (drain s uenv)
  then show ?case by (simp add: inv_drain)
next
  case (worker s t env)
  then show ?case by (simp add: inv_worker)
next
  case (closing s)
  then show ?case by (simp add: inv_other)
qed

text \<open>
  C6. In every reachable state at most one worker thread has a batch in progress, no
  queue holds more than one \<^verbatim>\<open>finished\<close>, and a thread with a batch in progress is the
  live thread \<^verbatim>\<open>geocoding_thread\<close> refers to. Whenever that thread is alive, a call of
  \<^verbatim>\<open>load_map_markers\<close> only sets the status message: the thread and queue stores, so
  the set of workers and everything they have put, the markers (in \<^verbatim>\<open>map_markers\<close>
  and on the widget), the grouping and both counters are as before the call.
\<close>

theorem at_most_one_batch:
  assumes "reachable s"
  shows "(\<forall>t u. batch_active s t \<and> batch_active s u \<longrightarrow> t = u)
       \<and> (\<forall>a. count_list (queues s a) finished \<le> 1)
       \<and> (\<forall>t. batch_active s t \<longrightarrow> thread_is_alive s)
       \<and> (thread_is_alive s \<longrightarrow>
            threads (load_map_markers lenv s) = threads s
          \<and> thread_count (load_map_markers lenv s) = thread_count s
          \<and> queues (load_map_markers lenv s) = queues s
          \<and> queue_count (load_map_markers lenv s) = queue_count s
          \<and> geocoding_thread (load_map_markers lenv s) = geocoding_thread s
          \<and> geocoding_queue (load_map_markers lenv s) = geocoding_queue s
          \<and> processing_queue (load_map_markers lenv s) = processing_queue s
          \<and> map_widget (load_map_markers lenv s) = map_widget s
          \<and> map_markers (load_map_markers lenv s) = map_markers s
          \<and> grouped_cases_by_location (load_map_markers lenv s) = grouped_cases_by_location s
          \<and> geolocated_count (load_map_markers lenv s) = geolocated_count s
          \<and> skipped_count (load_map_markers lenv s) = skipped_count s
          \<and> geocache_table (load_map_markers lenv s) = geocache_table s
          \<and> status_text (load_map_markers lenv s) =
               (if map_widget_alive s then ''Map loading already in progress.''
                else ''Map widget not available.''))"
proof -
  have inv: "one_batch_inv s" using assms by (rule reachable_inv)
  have one: "t = u" if "batch_active s t" "batch_active s u" for t u
  proof -
    from that have "geocoding_thread s = Some t" "geocoding_thread s = Some u"
      using one_batch_invD(1) [OF inv, of t] one_batch_invD(1) [OF inv, of u]
      by (simp_all add: batch_active_def)
    then show ?thesis by simp
  qed
  have alive: "thread_is_alive s" if "batch_active s t" for t
  proof -
    from that have p: "phase (threads s t) = InLoop" by (simp add: batch_active_def)
    then have "geocoding_thread s = Some t" by (rule one_batch_invD(1) [OF inv])
    with p show ?thesis by (simp add: thread_is_alive_def)
  qed
  have cnt: "count_list (queues s a) finished \<le> 1" for a
    using inv by (rule one_batch_invD(4))
  have noop: "load_map_markers lenv s =
     update_status (if map_widget_alive s then ''Map loading already in progress.''
                    else ''Map widget not available.'') s" if "thread_is_alive s"
    using that by (simp add: load_refused)
  show ?thesis
  proof (intro conjI allI impI)
    fix t u assume "batch_active s t \<and> batch_active s u"
    then show "t = u" using one by blast
  next
    fix a show "count_list (queues s a) finished \<le> 1" by (rule cnt)
  next
    fix t assume "batch_active s t"
    then show "thread_is_alive s" by (rule alive)
  qed (simp_all add: noop)
qed

lemma step_example_thread:
  "geocoding_thread (thread_step example_env 0 (load_map_markers example_load ui_ready)) = Some 0"
  "phase (threads (thread_step example_env 0 (load_map_markers example_load ui_ready)) 0) = InLoop"
  "thread_count (thread_step example_env 0 (load_map_markers example_load ui_ready)) = 1"
  "geolocated_count (thread_step example_env 0 (load_map_markers example_load ui_ready)) = 0"
  by (simp_all add: thread_step_counters)
     (simp_all add: load_example thread_step_def Let_def split_beta)

lemma second_load_state:
  "thread_is_alive (process_geocoding_results quiet_ui
      (thread_step example_env 0 (load_map_markers example_load ui_ready)))"
  "geolocated_count (process_geocoding_results quiet_ui
      (thread_step example_env 0 (load_map_markers example_load ui_ready))) = 1"
  "thread_count (process_geocoding_results quiet_ui
      (thread_step example_env 0 (load_map_markers example_load ui_ready))) = 1"
proof -
  let ?s1 = "thread_step example_env 0 (load_map_markers example_load ui_ready)"
  have q: "queues ?s1 (geocoding_queue ?s1)
             = [success_geocoded ''Jackson'' ''MS'' (323 / 10) (- (902 / 10))]"
    by (simp only: step_example)
  have q': "queues ?s1 (geocoding_queue (load_map_markers example_load ui_ready))
             = [success_geocoded ''Jackson'' ''MS'' (323 / 10) (- (902 / 10))]"
    using q by simp
  let ?x = "success_geocoded ''Jackson'' ''MS'' (323 / 10) (- (902 / 10))"
  have al: "map_widget_alive ?s1" by (rule step_example(3))
  have gt: "geocoding_thread (snd (drain_loop quiet_ui [?x] ?s1)) = geocoding_thread ?s1"
    by (rule drain_loop_thread) simp
  have gc: "geolocated_count (snd (drain_loop quiet_ui [?x] ?s1)) = geolocated_count ?s1 + 1"
    using al by (simp add: process_success_counters quiet_ui_def)
  have "geocoding_thread (process_geocoding_results quiet_ui ?s1) = Some 0"
    unfolding process_geocoding_results_frame q gt by (rule step_example_thread(1))
  moreover have "phase (threads (process_geocoding_results quiet_ui ?s1) 0) = InLoop"
    by (simp add: process_geocoding_results_frame step_example_thread)
  ultimately show "thread_is_alive (process_geocoding_results quiet_ui ?s1)"
    by (simp add: thread_is_alive_def)
  show "geolocated_count (process_geocoding_results quiet_ui ?s1) = 1"
    unfolding process_geocoding_results_counters q gc by (simp add: step_example_thread)
  show "thread_count (process_geocoding_results quiet_ui ?s1) = 1"
    by (simp add: process_geocoding_results_frame load_example)
qed

theorem at_most_one_batch_witness:
  "thread_is_alive (process_geocoding_results quiet_ui
      (thread_step example_env 0 (load_map_markers example_load ui_ready)))
   \<and> geolocated_count (load_map_markers example_load (process_geocoding_results quiet_ui
        (thread_step example_env 0 (load_map_markers example_load ui_ready)))) = 1
   \<and> map_markers (load_map_markers example_load (process_geocoding_results quiet_ui
        (thread_step example_env 0 (load_map_markers example_load ui_ready))))
      = map_markers (process_geocoding_results quiet_ui
        (thread_step example_env 0 (load_map_markers example_load ui_ready)))
   \<and> map_widget (load_map_markers example_load (process_geocoding_results quiet_ui
        (thread_step example_env 0 (load_map_markers example_load ui_ready))))
      = map_widget (process_geocoding_results quiet_ui
        (thread_step example_env 0 (load_map_markers example_load ui_ready)))
   \<and> threads (load_map_markers example_load (process_geocoding_results quiet_ui
        (thread_step example_env 0 (load_map_markers example_load ui_ready))))
      = threads (process_geocoding_results quiet_ui
        (thread_step example_env 0 (load_map_markers example_load ui_ready)))
   \<and> queues (load_map_markers example_load (process_geocoding_results quiet_ui
        (thread_step example_env 0 (load_map_markers example_load ui_ready))))
      = queues (process_geocoding_results quiet_ui
        (thread_step example_env 0 (load_map_markers example_load ui_ready)))
   \<and> thread_count (load_map_markers example_load (process_geocoding_results quiet_ui
        (thread_step example_env 0 (load_map_markers example_load ui_ready)))) = 1"
proof -
  let ?s = "process_geocoding_results quiet_ui
      (thread_step example_env 0 (load_map_markers example_load ui_ready))"
  have "reachable ui_ready"
    unfolding ui_ready_def
    by (intro reachable.status_bar reachable.widgets reachable.init)
  then have "reachable (load_map_markers example_load ui_ready)"
    by (rule reachable.load)
  moreover have "0 < thread_count (load_map_markers example_load ui_ready)"
    by (simp add: load_example)
  ultimately have "reachable (thread_step example_env 0 (load_map_markers example_load ui_ready))"
    by (rule reachable.worker)
  then have r: "reachable ?s"
    by (rule reachable.drain)
  from at_most_one_batch [OF r, of example_load] second_load_state
  show ?thesis by simp
qed

section \<open>The worker as a thread and as a function\<close>

lemma try_geocode_running:
  "try_geocode (env\<lparr>running := r\<rparr>) i city st c = try_geocode env i city st c"
  by (simp add: try_geocode_def split: sum.splits option.splits)

lemma process_location_running [simp]:
  "process_location (env\<lparr>running := r\<rparr>) i loc c = process_location env i loc c"
  unfolding process_location_def try_geocode_running by simp

lemma thread_step_root_running [simp]:
  "root_running (thread_step env t s) = root_running s"
  by (simp add: thread_step_def Let_def split_beta split: thread_phase.splits list.splits)

lemma thread_step_iteration_more:
  assumes "phase (threads s t) = InLoop" and "remaining (threads s t) = loc # rest"
    and "root_running s"
  shows "geocache_table (thread_step env t s)
           = snd (process_location env (index (threads s t)) loc (geocache_table s))"
  using assms by (simp add: thread_step_def Let_def split_beta)

text \<open>
  The two descriptions of the worker agree: a thread that runs alone from the start of
  its loop, with \<^verbatim>\<open>root._running\<close> set, puts on its queue what
  \<^verbatim>\<open>_geocode_locations_in_thread\<close> puts, leaves the geocache as that run does, and is
  then past its \<^verbatim>\<open>finished\<close>.
\<close>

lemma thread_steps_agree:
  assumes "phase (threads s t) = InLoop" and "remaining (threads s t) = locations"
    and "root_running s"
  shows "queues (thread_steps env t (Suc (length locations)) s) (thread_queue (threads s t))
           = queues s (thread_queue (threads s t))
             @ puts (fst (geocode_loop (env\<lparr>running := (\<lambda>_. True)\<rparr>) (index (threads s t))
                            locations (geocache_table s)))
             @ [finished]
       \<and> geocache_table (thread_steps env t (Suc (length locations)) s)
           = snd (geocode_loop (env\<lparr>running := (\<lambda>_. True)\<rparr>) (index (threads s t))
                    locations (geocache_table s))
       \<and> phase (threads (thread_steps env t (Suc (length locations)) s) t) = AfterFinished"
  using assms
proof (induction locations arbitrary: s)
  case Nil
  then have "remaining (threads s t) = [] \<or> \<not> root_running s" by simp
  note st = thread_step_put_finished [OF Nil.prems(1) this, of env]
  have "geocache_table (thread_step env t s) = geocache_table s"
    using Nil.prems by (simp add: thread_step_def Let_def)
  with st show ?case by simp
next
  case (Cons loc rest)
  let ?s1 = "thread_step env t s"
  note st = thread_step_iteration [OF Cons.prems(1,2,3), of env]
  note gc = thread_step_iteration_more [OF Cons.prems(1,2,3), of env]
  have p: "phase (threads ?s1 t) = InLoop" "remaining (threads ?s1 t) = rest"
      "root_running ?s1" "index (threads ?s1 t) = Suc (index (threads s t))"
      "thread_queue (threads ?s1 t) = thread_queue (threads s t)"
    using st(1) Cons.prems by simp_all
  from Cons.IH [OF p(1,2,3)] p(4,5) st(2) gc
  show ?case
    by (simp add: split_beta puts_append)
qed

end
